theory Spec2Isabelle
  imports Main "HOL-Library.Word"
begin

section \<open>Data model of \<open>smart_pointers.hpp\<close>\<close>

text \<open>
  Object pointers (\<open>T*\<close>, \<open>Y*\<close>).  \<open>Obj n\<close> is the address of an object the
  caller allocated with \<open>new\<close>; \<open>Counter_obj a\<close> is the address of the control block
  \<open>a\<close> held as an object pointer (a \<open>NonDirectPtrCounter*\<close>, or its
  \<open>reinterpret_cast<T*>\<close>); \<open>Embedded a\<close> is the address of the member
  \<open>ptr_obj_\<close> inside the \<open>NonDirectPtrCounter\<close> at \<open>a\<close>.
\<close>

datatype pointer = Null | Obj nat | Counter_obj nat | Embedded nat

text \<open>
  The two classes derived from \<open>BasePtrCounter\<close>: \<open>DirectPtrCounter<Y>\<close> holds
  \<open>Y* ptr_\<close>, \<open>NonDirectPtrCounter\<close> holds the object \<open>T ptr_obj_\<close> itself.
  The counts are \<open>uint32_t\<close>.
\<close>

datatype 'v variant = DirectPtrCounter pointer | NonDirectPtrCounter 'v

record 'v BasePtrCounter =
  shared_count :: "32 word"
  weak_count :: "32 word"
  variant :: "'v variant"

datatype block_type = Direct_block | NonDirect_block

text \<open>
  What the program does to memory is logged: an allocation of a control block (with the
  class the allocator was rebound to), a call of the virtual \<open>destroy()\<close>, a call of the
  virtual \<open>deallocate()\<close>, and a \<open>delete\<close> of an object pointer.
\<close>

datatype event = Allocate block_type nat | Destroy nat | Deallocate nat | Delete pointer

text \<open>
  Undefined behaviour of the C++ program is an error value: a member call through a null
  pointer, an access to a control block that is not allocated (any more), a \<open>delete\<close> of
  a pointer that \<open>new\<close> did not return.  \<open>No_such_handle\<close> is not a run-time event: it
  marks a program that names a handle variable that is not in scope.
\<close>

datatype error = Null_dereference | Use_after_free | Invalid_delete | No_such_handle

text \<open>
  The heap of control blocks, indexed by address.  An address is never handed out twice;
  a freed block is \<open>None\<close>.
\<close>

record 'v heap =
  counters :: "'v BasePtrCounter option list"
  trace :: "event list"

record SharedPtr =
  ptr_counter :: "nat option"
  ptr :: pointer

record WeakPtr =
  weak_ptr_counter :: "nat option"

text \<open>
  A program state: the heap, and the handle variables in scope.  A handle variable is
  named by its index; a variable that went out of scope is \<open>None\<close>.
\<close>

record 'v state =
  heap :: "'v heap"
  shared :: "SharedPtr option list"
  weak :: "WeakPtr option list"

section \<open>\<open>BasePtrCounter\<close> and its two implementations\<close>

definition increment_shared_count :: "'v BasePtrCounter \<Rightarrow> 'v BasePtrCounter" where
  "increment_shared_count c = c\<lparr>shared_count := shared_count c + 1\<rparr>"

definition decrement_shared_count :: "'v BasePtrCounter \<Rightarrow> 'v BasePtrCounter" where
  "decrement_shared_count c = c\<lparr>shared_count := shared_count c - 1\<rparr>"

definition increment_weak_count :: "'v BasePtrCounter \<Rightarrow> 'v BasePtrCounter" where
  "increment_weak_count c = c\<lparr>weak_count := weak_count c + 1\<rparr>"

definition decrement_weak_count :: "'v BasePtrCounter \<Rightarrow> 'v BasePtrCounter" where
  "decrement_weak_count c = c\<lparr>weak_count := weak_count c - 1\<rparr>"

definition get_shared_count :: "'v BasePtrCounter \<Rightarrow> 32 word" where
  "get_shared_count c = shared_count c"

definition get_weak_count :: "'v BasePtrCounter \<Rightarrow> 32 word" where
  "get_weak_count c = weak_count c"

text \<open>\<open>get_ptr()\<close> of the block at address \<open>this\<close>.\<close>

definition get_ptr :: "nat \<Rightarrow> 'v BasePtrCounter \<Rightarrow> pointer" where
  "get_ptr this c =
     (case variant c of
        DirectPtrCounter p \<Rightarrow> p
      | NonDirectPtrCounter v \<Rightarrow> Embedded this)"

definition counter_at :: "'v heap \<Rightarrow> nat \<Rightarrow> 'v BasePtrCounter option" where
  "counter_at hp a = (if a < length (counters hp) then counters hp ! a else None)"

text \<open>Reading through a \<open>BasePtrCounter*\<close> that is not null.\<close>

definition deref :: "'v heap \<Rightarrow> nat \<Rightarrow> error + 'v BasePtrCounter" where
  "deref hp a = (case counter_at hp a of None \<Rightarrow> Inl Use_after_free | Some c \<Rightarrow> Inr c)"

definition store :: "nat \<Rightarrow> 'v BasePtrCounter \<Rightarrow> 'v heap \<Rightarrow> 'v heap" where
  "store a c hp = hp\<lparr>counters := (counters hp)[a := Some c]\<rparr>"

text \<open>
  \<open>allocator_traits::allocate(alloc, 1)\<close> followed by the construction of the block in
  the memory it returned.  The allocator is taken not to fail.
\<close>

definition allocate :: "block_type \<Rightarrow> 'v BasePtrCounter \<Rightarrow> 'v heap \<Rightarrow> nat \<times> 'v heap" where
  "allocate bt c hp =
     (length (counters hp),
      hp\<lparr>counters := counters hp @ [Some c],
         trace := trace hp @ [Allocate bt (length (counters hp))]\<rparr>)"

text \<open>
  \<open>std::default_delete\<close> applied to an object pointer.  Deleting the null pointer does
  nothing.  Deleting a \<open>NonDirectPtrCounter*\<close> runs its destructor and frees the block
  it points to.  Deleting the address of a member is undefined.
\<close>

definition delete_ptr :: "pointer \<Rightarrow> 'v heap \<Rightarrow> error + 'v heap" where
  "delete_ptr p hp =
     (case p of
        Null \<Rightarrow> Inr hp
      | Obj n \<Rightarrow> Inr (hp\<lparr>trace := trace hp @ [Delete (Obj n)]\<rparr>)
      | Counter_obj b \<Rightarrow>
          (case counter_at hp b of
             None \<Rightarrow> Inl Invalid_delete
           | Some c \<Rightarrow>
               (case variant c of
                  DirectPtrCounter q \<Rightarrow> Inl Invalid_delete
                | NonDirectPtrCounter v \<Rightarrow>
                    Inr (hp\<lparr>counters := (counters hp)[b := None],
                            trace := trace hp @ [Delete (Counter_obj b)]\<rparr>)))
      | Embedded b \<Rightarrow> Inl Invalid_delete)"

text \<open>
  The virtual \<open>destroy()\<close> of the block at \<open>a\<close>: \<open>DirectPtrCounter\<close> deletes \<open>ptr_\<close>
  and sets it to null; \<open>NonDirectPtrCounter\<close> deletes \<open>get_ptr()\<close>, the address of its
  own member.
\<close>

definition destroy :: "nat \<Rightarrow> 'v heap \<Rightarrow> error + 'v heap" where
  "destroy a hp =
     (case deref hp a of
        Inl e \<Rightarrow> Inl e
      | Inr c \<Rightarrow>
          (case variant c of
             DirectPtrCounter p \<Rightarrow>
               (case delete_ptr p (hp\<lparr>trace := trace hp @ [Destroy a]\<rparr>) of
                  Inl e \<Rightarrow> Inl e
                | Inr hp1 \<Rightarrow> Inr (store a (c\<lparr>variant := DirectPtrCounter Null\<rparr>) hp1))
           | NonDirectPtrCounter v \<Rightarrow>
               delete_ptr (get_ptr a c) (hp\<lparr>trace := trace hp @ [Destroy a]\<rparr>)))"

text \<open>The virtual \<open>deallocate()\<close> of the block at \<open>a\<close>: the block's storage is freed.\<close>

definition deallocate :: "nat \<Rightarrow> 'v heap \<Rightarrow> 'v heap" where
  "deallocate a hp =
     hp\<lparr>counters := (counters hp)[a := None], trace := trace hp @ [Deallocate a]\<rparr>"

text \<open>\<open>p->increment_shared_count()\<close> and \<open>p->increment_weak_count()\<close> for \<open>p\<close> not null.\<close>

definition incr_shared :: "nat \<Rightarrow> 'v heap \<Rightarrow> error + 'v heap" where
  "incr_shared a hp =
     (case deref hp a of Inl e \<Rightarrow> Inl e | Inr c \<Rightarrow> Inr (store a (increment_shared_count c) hp))"

definition incr_weak :: "nat \<Rightarrow> 'v heap \<Rightarrow> error + 'v heap" where
  "incr_weak a hp =
     (case deref hp a of Inl e \<Rightarrow> Inl e | Inr c \<Rightarrow> Inr (store a (increment_weak_count c) hp))"

section \<open>\<open>SharedPtr\<close>\<close>

text \<open>\<open>SharedPtr()\<close>.\<close>

definition SharedPtr_default :: SharedPtr where
  "SharedPtr_default = \<lparr>ptr_counter = None, ptr = Null\<rparr>"

text \<open>\<open>get()\<close>: the cached pointer if it is set, else what the block says.\<close>

definition get :: "SharedPtr \<Rightarrow> 'v heap \<Rightarrow> error + pointer" where
  "get sp hp =
     (if ptr sp \<noteq> Null then Inr (ptr sp)
      else (case ptr_counter sp of
              None \<Rightarrow> Inr Null
            | Some a \<Rightarrow> (case deref hp a of Inl e \<Rightarrow> Inl e | Inr c \<Rightarrow> Inr (get_ptr a c))))"

definition use_count :: "SharedPtr \<Rightarrow> 'v heap \<Rightarrow> error + 32 word" where
  "use_count sp hp =
     (case ptr_counter sp of
        None \<Rightarrow> Inr 0
      | Some a \<Rightarrow> (case deref hp a of Inl e \<Rightarrow> Inl e | Inr c \<Rightarrow> Inr (get_shared_count c)))"

text \<open>
  \<open>reset_ptr()\<close> and \<open>reset_ptr_counter()\<close>, two public members: each sets one data
  member to null and calls nothing.
\<close>

definition reset_ptr :: "SharedPtr \<Rightarrow> SharedPtr" where
  "reset_ptr sp = sp\<lparr>ptr := Null\<rparr>"

definition reset_ptr_counter :: "SharedPtr \<Rightarrow> SharedPtr" where
  "reset_ptr_counter sp = sp\<lparr>ptr_counter := None\<rparr>"

text \<open>\<open>SharedPtr(BasePtrCounter* ptr_counter)\<close>.\<close>

definition SharedPtr_from_counter :: "nat option \<Rightarrow> 'v heap \<Rightarrow> error + SharedPtr \<times> 'v heap" where
  "SharedPtr_from_counter pc hp =
     (case pc of
        None \<Rightarrow> Inr (\<lparr>ptr_counter = None, ptr = Null\<rparr>, hp)
      | Some a \<Rightarrow>
          (case deref hp a of
             Inl e \<Rightarrow> Inl e
           | Inr c \<Rightarrow>
               (case incr_shared a hp of
                  Inl e \<Rightarrow> Inl e
                | Inr hp1 \<Rightarrow> Inr (\<lparr>ptr_counter = Some a, ptr = get_ptr a c\<rparr>, hp1))))"

text \<open>
  \<open>template <typename Y> SharedPtr(Y* ptr)\<close>: a \<open>DirectPtrCounter<Y>\<close> is allocated
  and constructed around \<open>ptr\<close> (counts 0), then its shared count is incremented.
\<close>

definition SharedPtr_from_raw :: "pointer \<Rightarrow> 'v heap \<Rightarrow> error + SharedPtr \<times> 'v heap" where
  "SharedPtr_from_raw p hp =
     (case allocate Direct_block
             \<lparr>shared_count = 0, weak_count = 0, variant = DirectPtrCounter p\<rparr> hp of
        (a, hp1) \<Rightarrow>
          (case incr_shared a hp1 of
             Inl e \<Rightarrow> Inl e
           | Inr hp2 \<Rightarrow> Inr (\<lparr>ptr_counter = Some a, ptr = p\<rparr>, hp2)))"

text \<open>\<open>SharedPtr(const SharedPtr& other_ptr)\<close>.\<close>

definition SharedPtr_copy :: "SharedPtr \<Rightarrow> 'v heap \<Rightarrow> error + SharedPtr \<times> 'v heap" where
  "SharedPtr_copy other hp =
     (case get other hp of
        Inl e \<Rightarrow> Inl e
      | Inr p \<Rightarrow>
          (case ptr_counter other of
             None \<Rightarrow> Inr (\<lparr>ptr_counter = None, ptr = p\<rparr>, hp)
           | Some a \<Rightarrow>
               (case incr_shared a hp of
                  Inl e \<Rightarrow> Inl e
                | Inr hp1 \<Rightarrow> Inr (\<lparr>ptr_counter = Some a, ptr = p\<rparr>, hp1))))"

text \<open>
  \<open>SharedPtr(SharedPtr&& other_ptr)\<close>: the new handle and what is left of the source.
\<close>

definition SharedPtr_move :: "SharedPtr \<Rightarrow> 'v heap \<Rightarrow> error + SharedPtr \<times> SharedPtr" where
  "SharedPtr_move other hp =
     (case get other hp of
        Inl e \<Rightarrow> Inl e
      | Inr p \<Rightarrow>
          Inr (\<lparr>ptr_counter = ptr_counter other, ptr = p\<rparr>,
               other\<lparr>ptr_counter := None, ptr := Null\<rparr>))"

text \<open>\<open>~SharedPtr()\<close>.\<close>

definition SharedPtr_dtor :: "SharedPtr \<Rightarrow> 'v heap \<Rightarrow> error + 'v heap" where
  "SharedPtr_dtor sp hp =
     (case ptr_counter sp of
        None \<Rightarrow> Inr hp
      | Some a \<Rightarrow>
          (case deref hp a of
             Inl e \<Rightarrow> Inl e
           | Inr c \<Rightarrow>
               if 0 < get_shared_count c then
                 (let c1 = decrement_shared_count c; hp1 = store a c1 hp in
                  if get_shared_count c1 = 0 then
                    (case destroy a hp1 of
                       Inl e \<Rightarrow> Inl e
                     | Inr hp2 \<Rightarrow>
                         (case deref hp2 a of
                            Inl e \<Rightarrow> Inl e
                          | Inr c2 \<Rightarrow>
                              if get_weak_count c2 = 0 then Inr (deallocate a hp2)
                              else Inr hp2))
                  else Inr hp1)
               else Inr hp))"

text \<open>
  \<open>operator=(const SharedPtr& other_ptr)\<close>, the part inside \<open>if (this != &other_ptr)\<close>:
  the handle's new value and the new heap.
\<close>

definition SharedPtr_copy_assign_body ::
    "SharedPtr \<Rightarrow> SharedPtr \<Rightarrow> 'v heap \<Rightarrow> error + SharedPtr \<times> 'v heap" where
  "SharedPtr_copy_assign_body this other hp =
     (case (if ptr_counter this \<noteq> None then SharedPtr_dtor this hp else Inr hp) of
        Inl e \<Rightarrow> Inl e
      | Inr hp1 \<Rightarrow>
          (case get other hp1 of
             Inl e \<Rightarrow> Inl e
           | Inr p \<Rightarrow>
               (case ptr_counter other of
                  None \<Rightarrow> Inr (\<lparr>ptr_counter = None, ptr = p\<rparr>, hp1)
                | Some a \<Rightarrow>
                    (case incr_shared a hp1 of
                       Inl e \<Rightarrow> Inl e
                     | Inr hp2 \<Rightarrow> Inr (\<lparr>ptr_counter = Some a, ptr = p\<rparr>, hp2)))))"

text \<open>
  \<open>operator=(SharedPtr&& other_ptr)\<close>, the part inside \<open>if (this != &other_ptr)\<close>:
  the handle's new value, what is left of the source, and the new heap.
\<close>

definition SharedPtr_move_assign_body ::
    "SharedPtr \<Rightarrow> SharedPtr \<Rightarrow> 'v heap \<Rightarrow> error + SharedPtr \<times> SharedPtr \<times> 'v heap" where
  "SharedPtr_move_assign_body this other hp =
     (case (if ptr_counter this \<noteq> None then SharedPtr_dtor this hp else Inr hp) of
        Inl e \<Rightarrow> Inl e
      | Inr hp1 \<Rightarrow>
          (case get other hp1 of
             Inl e \<Rightarrow> Inl e
           | Inr p \<Rightarrow>
               Inr (\<lparr>ptr_counter = ptr_counter other, ptr = p\<rparr>,
                    other\<lparr>ptr := Null, ptr_counter := None\<rparr>, hp1)))"

section \<open>\<open>WeakPtr\<close>\<close>

text \<open>
  \<open>WeakPtr\<close> declares a default constructor, a destructor, and member templates over
  \<open>Y\<close> for the construction and the assignment from a \<open>WeakPtr<Y>\<close>.  A member
  template is never a copy constructor or a copy assignment operator, so the compiler
  declares both for the class; they copy \<open>ptr_counter_\<close> and call nothing.  For two
  handles of one type the compiler's two members are the ones called (between equally good
  conversions a function that is not a template is preferred); the constructor template is
  called for a source of another type \<open>Y\<close>, and for an rvalue source (where the binding
  of \<open>WeakPtr<Y>&&\<close> is the better one).  The handles of all types are modelled over one
  type of control block, as the \<open>reinterpret_cast\<close>s of the source treat them.
\<close>

definition WeakPtr_default :: WeakPtr where
  "WeakPtr_default = \<lparr>weak_ptr_counter = None\<rparr>"

text \<open>
  The copy constructor that the compiler declares, \<open>WeakPtr(const WeakPtr&)\<close>: the new
  handle has the \<open>ptr_counter_\<close> of the source, and no count changes.
\<close>

definition WeakPtr_implicit_copy :: "WeakPtr \<Rightarrow> WeakPtr" where
  "WeakPtr_implicit_copy other = \<lparr>weak_ptr_counter = weak_ptr_counter other\<rparr>"

text \<open>
  The copy assignment operator that the compiler declares,
  \<open>operator=(const WeakPtr&)\<close>: \<open>ptr_counter_\<close> is overwritten with that of the
  source; no count changes and no destructor runs.
\<close>

definition WeakPtr_implicit_copy_assign :: "WeakPtr \<Rightarrow> WeakPtr \<Rightarrow> WeakPtr" where
  "WeakPtr_implicit_copy_assign this other = this\<lparr>weak_ptr_counter := weak_ptr_counter other\<rparr>"

text \<open>
  \<open>template <typename Y> WeakPtr(const WeakPtr<Y>& other_ptr)\<close>, the constructor
  called for a source of another type \<open>Y\<close>.
\<close>

definition WeakPtr_copy :: "WeakPtr \<Rightarrow> 'v heap \<Rightarrow> error + WeakPtr \<times> 'v heap" where
  "WeakPtr_copy other hp =
     (case weak_ptr_counter other of
        None \<Rightarrow> Inr (\<lparr>weak_ptr_counter = None\<rparr>, hp)
      | Some a \<Rightarrow>
          (case incr_weak a hp of
             Inl e \<Rightarrow> Inl e
           | Inr hp1 \<Rightarrow> Inr (\<lparr>weak_ptr_counter = Some a\<rparr>, hp1)))"

text \<open>\<open>WeakPtr(WeakPtr<Y>&& other_ptr)\<close>: the new handle and what is left of the source.\<close>

definition WeakPtr_move :: "WeakPtr \<Rightarrow> WeakPtr \<times> WeakPtr" where
  "WeakPtr_move other =
     (\<lparr>weak_ptr_counter = weak_ptr_counter other\<rparr>, other\<lparr>weak_ptr_counter := None\<rparr>)"

text \<open>
  \<open>WeakPtr(const SharedPtr<Y>& other_ptr)\<close>: the constructor body calls
  \<open>ptr_counter_->increment_weak_count()\<close> without a test of \<open>ptr_counter_\<close>.
\<close>

definition WeakPtr_from_shared :: "SharedPtr \<Rightarrow> 'v heap \<Rightarrow> error + WeakPtr \<times> 'v heap" where
  "WeakPtr_from_shared other hp =
     (case ptr_counter other of
        None \<Rightarrow> Inl Null_dereference
      | Some a \<Rightarrow>
          (case incr_weak a hp of
             Inl e \<Rightarrow> Inl e
           | Inr hp1 \<Rightarrow> Inr (\<lparr>weak_ptr_counter = Some a\<rparr>, hp1)))"

definition expired :: "WeakPtr \<Rightarrow> 'v heap \<Rightarrow> error + bool" where
  "expired w hp =
     (case weak_ptr_counter w of
        None \<Rightarrow> Inr True
      | Some a \<Rightarrow>
          (case deref hp a of Inl e \<Rightarrow> Inl e | Inr c \<Rightarrow> Inr (get_shared_count c = 0)))"

text \<open>
  \<open>lock()\<close> is declared to return \<open>BasePtrCounter*\<close>.  Its body is the conditional
  \<open>expired() ? std::runtime_error(...) : ptr_counter_\<close>; the two arms are kept as they
  are written (the text of the message plays no part and is left out).
\<close>

datatype lock_result = Runtime_error | Counter_pointer "nat option"

definition lock :: "WeakPtr \<Rightarrow> 'v heap \<Rightarrow> error + lock_result" where
  "lock w hp =
     (case expired w hp of
        Inl e \<Rightarrow> Inl e
      | Inr b \<Rightarrow> Inr (if b then Runtime_error else Counter_pointer (weak_ptr_counter w)))"

text \<open>\<open>~WeakPtr()\<close>.\<close>

definition WeakPtr_dtor :: "WeakPtr \<Rightarrow> 'v heap \<Rightarrow> error + 'v heap" where
  "WeakPtr_dtor w hp =
     (case weak_ptr_counter w of
        None \<Rightarrow> Inr hp
      | Some a \<Rightarrow>
          (case deref hp a of
             Inl e \<Rightarrow> Inl e
           | Inr c \<Rightarrow>
               (let c1 = (if 0 < get_weak_count c then decrement_weak_count c else c);
                    hp1 = store a c1 hp
                in if get_weak_count c1 = 0 \<and> get_shared_count c1 = 0
                   then Inr (deallocate a hp1) else Inr hp1)))"

text \<open>
  The two assignment templates, \<open>operator=(const WeakPtr<Y>&)\<close> and
  \<open>operator=(WeakPtr<Y>&&)\<close>, read the source through \<open>other_ptr.get_ptr_counter()\<close>,
  and the second empties it through \<open>other_ptr.reset_ptr_counter()\<close>.  \<open>WeakPtr\<close>
  declares neither function, so neither template can be instantiated.  The first is never
  selected for two handles of one type and has no model here.  The second is the member
  selected for \<open>w1 = std::move(w2)\<close>; its text is modelled, the part inside
  \<open>if (this != &other_ptr)\<close>, with the two calls read as the accesses to
  \<open>other_ptr.ptr_counter_\<close> that the constructors make.
\<close>

definition WeakPtr_move_assign_body ::
    "WeakPtr \<Rightarrow> WeakPtr \<Rightarrow> 'v heap \<Rightarrow> error + WeakPtr \<times> WeakPtr \<times> 'v heap" where
  "WeakPtr_move_assign_body this other hp =
     (case (case weak_ptr_counter this of
              None \<Rightarrow> Inr hp
            | Some a \<Rightarrow>
                (case deref hp a of
                   Inl e \<Rightarrow> Inl e
                 | Inr c \<Rightarrow>
                     if 0 < get_weak_count c then
                       (let c1 = decrement_weak_count c; hp1 = store a c1 hp
                        in if get_weak_count c1 = 0 \<and> get_shared_count c1 = 0
                           then Inr (deallocate a hp1) else Inr hp1)
                     else Inr hp)) of
        Inl e \<Rightarrow> Inl e
      | Inr hp1 \<Rightarrow>
          Inr (\<lparr>weak_ptr_counter = weak_ptr_counter other\<rparr>,
               other\<lparr>weak_ptr_counter := None\<rparr>, hp1))"

section \<open>\<open>MakeShared\<close>\<close>

text \<open>
  \<open>MakeShared<T>(args...)\<close>, with \<open>v\<close> the object \<open>T(args...)\<close>.  A
  \<open>NonDirectPtrCounter\<close> is allocated and constructed around \<open>v\<close>.  The local handle is
  then initialised by \<open>SharedPtr<T> ptr(temp_ptr)\<close> with \<open>temp_ptr\<close> of type
  \<open>NonDirectPtrCounter*\<close>.  Two constructors take one pointer: \<open>SharedPtr(BasePtrCounter*)\<close>
  needs a derived-to-base pointer conversion of the argument, the constructor template
  \<open>SharedPtr(Y*)\<close> with \<open>Y = NonDirectPtrCounter\<close> takes it as it is.  Overload
  resolution ranks the exact match above the conversion (and prefers a non-template only
  between equally good conversions), so the constructor template is the one called.
  \<open>return std::move(ptr)\<close> move-constructs the result, and the local handle is destroyed.
\<close>

definition MakeShared :: "'v \<Rightarrow> 'v heap \<Rightarrow> error + SharedPtr \<times> 'v heap" where
  "MakeShared v hp =
     (case allocate NonDirect_block
             \<lparr>shared_count = 0, weak_count = 0, variant = NonDirectPtrCounter v\<rparr> hp of
        (temp_ptr, hp1) \<Rightarrow>
          (case SharedPtr_from_raw (Counter_obj temp_ptr) hp1 of
             Inl e \<Rightarrow> Inl e
           | Inr (local, hp2) \<Rightarrow>
               (case SharedPtr_move local hp2 of
                  Inl e \<Rightarrow> Inl e
                | Inr (result, local') \<Rightarrow>
                    (case SharedPtr_dtor local' hp2 of
                       Inl e \<Rightarrow> Inl e
                     | Inr hp3 \<Rightarrow> Inr (result, hp3)))))"

section \<open>Programs over handle variables\<close>

definition shared_at :: "'v state \<Rightarrow> nat \<Rightarrow> SharedPtr option" where
  "shared_at s h = (if h < length (shared s) then shared s ! h else None)"

definition weak_at :: "'v state \<Rightarrow> nat \<Rightarrow> WeakPtr option" where
  "weak_at s h = (if h < length (weak s) then weak s ! h else None)"

text \<open>
  The assignment operators on two handle variables.  \<open>this != &other_ptr\<close> compares the
  addresses of the two variables, that is, their indices.
\<close>

definition SharedPtr_copy_assign :: "nat \<Rightarrow> nat \<Rightarrow> 'v state \<Rightarrow> error + 'v state" where
  "SharedPtr_copy_assign this other s =
     (if this \<noteq> other then
        (case shared_at s this of
           None \<Rightarrow> Inl No_such_handle
         | Some sp \<Rightarrow>
             (case shared_at s other of
                None \<Rightarrow> Inl No_such_handle
              | Some so \<Rightarrow>
                  (case SharedPtr_copy_assign_body sp so (heap s) of
                     Inl e \<Rightarrow> Inl e
                   | Inr (sp', hp) \<Rightarrow>
                       Inr (s\<lparr>heap := hp, shared := (shared s)[this := Some sp']\<rparr>))))
      else Inr s)"

definition SharedPtr_move_assign :: "nat \<Rightarrow> nat \<Rightarrow> 'v state \<Rightarrow> error + 'v state" where
  "SharedPtr_move_assign this other s =
     (if this \<noteq> other then
        (case shared_at s this of
           None \<Rightarrow> Inl No_such_handle
         | Some sp \<Rightarrow>
             (case shared_at s other of
                None \<Rightarrow> Inl No_such_handle
              | Some so \<Rightarrow>
                  (case SharedPtr_move_assign_body sp so (heap s) of
                     Inl e \<Rightarrow> Inl e
                   | Inr (sp', so', hp) \<Rightarrow>
                       Inr (s\<lparr>heap := hp,
                              shared := (shared s)[this := Some sp', other := Some so']\<rparr>))))
      else Inr s)"

text \<open>
  \<open>reset()\<close> is \<open>*this = SharedPtr<T>()\<close>: a move assignment from a temporary, which is
  then destroyed.
\<close>

definition reset :: "nat \<Rightarrow> 'v state \<Rightarrow> error + 'v state" where
  "reset this s =
     (case shared_at s this of
        None \<Rightarrow> Inl No_such_handle
      | Some sp \<Rightarrow>
          (case SharedPtr_move_assign_body sp SharedPtr_default (heap s) of
             Inl e \<Rightarrow> Inl e
           | Inr (sp', temp, hp) \<Rightarrow>
               (case SharedPtr_dtor temp hp of
                  Inl e \<Rightarrow> Inl e
                | Inr hp1 \<Rightarrow> Inr (s\<lparr>heap := hp1, shared := (shared s)[this := Some sp']\<rparr>))))"

text \<open>
  \<open>w1 = w2\<close> on two weak handle variables is the copy assignment operator that the
  compiler declares.  It makes no test of \<open>this\<close> against the source.
\<close>

definition WeakPtr_copy_assign :: "nat \<Rightarrow> nat \<Rightarrow> 'v state \<Rightarrow> error + 'v state" where
  "WeakPtr_copy_assign this other s =
     (case weak_at s this of
        None \<Rightarrow> Inl No_such_handle
      | Some w \<Rightarrow>
          (case weak_at s other of
             None \<Rightarrow> Inl No_such_handle
           | Some wo \<Rightarrow>
               Inr (s\<lparr>weak := (weak s)[this := Some (WeakPtr_implicit_copy_assign w wo)]\<rparr>)))"

definition WeakPtr_move_assign :: "nat \<Rightarrow> nat \<Rightarrow> 'v state \<Rightarrow> error + 'v state" where
  "WeakPtr_move_assign this other s =
     (if this \<noteq> other then
        (case weak_at s this of
           None \<Rightarrow> Inl No_such_handle
         | Some w \<Rightarrow>
             (case weak_at s other of
                None \<Rightarrow> Inl No_such_handle
              | Some wo \<Rightarrow>
                  (case WeakPtr_move_assign_body w wo (heap s) of
                     Inl e \<Rightarrow> Inl e
                   | Inr (w', wo', hp) \<Rightarrow>
                       Inr (s\<lparr>heap := hp,
                              weak := (weak s)[this := Some w', other := Some wo']\<rparr>))))
      else Inr s)"

text \<open>
  The statements of a client program.  A statement that declares a handle names it by the
  next free index.  \<open>S_raw\<close> passes a pointer the client got from \<open>new\<close> (\<open>Some n\<close>) or
  a null pointer; \<open>S_destroy\<close> and \<open>W_destroy\<close> are the end of a variable's scope.
  \<open>W_copy h\<close> is \<open>WeakPtr<T> w(h)\<close> and \<open>W_assign h h'\<close> is \<open>h = h'\<close> for weak
  handles of one type, the two members that the compiler declares; \<open>W_convert h\<close> is the
  construction from a weak handle of another type, the constructor template.

  A program does not call \<open>reset_ptr()\<close> or \<open>reset_ptr_counter()\<close> on a handle (they
  overwrite a member without the release of the block), nor the converting
  \<open>operator=(const SharedPtr<Y>&)\<close>.
\<close>

datatype 'v op =
    S_default
  | S_raw "nat option"
  | S_copy nat
  | S_move nat
  | S_assign nat nat
  | S_move_assign nat nat
  | S_reset nat
  | S_destroy nat
  | S_make 'v
  | W_default
  | W_copy nat
  | W_convert nat
  | W_move nat
  | W_observe nat
  | W_assign nat nat
  | W_move_assign nat nat
  | W_destroy nat

fun step :: "'v op \<Rightarrow> 'v state \<Rightarrow> error + 'v state" where
  "step S_default s = Inr (s\<lparr>shared := shared s @ [Some SharedPtr_default]\<rparr>)"
| "step (S_raw po) s =
     (case SharedPtr_from_raw (case po of None \<Rightarrow> Null | Some n \<Rightarrow> Obj n) (heap s) of
        Inl e \<Rightarrow> Inl e
      | Inr (sp, hp) \<Rightarrow> Inr (s\<lparr>heap := hp, shared := shared s @ [Some sp]\<rparr>))"
| "step (S_copy h) s =
     (case shared_at s h of
        None \<Rightarrow> Inl No_such_handle
      | Some so \<Rightarrow>
          (case SharedPtr_copy so (heap s) of
             Inl e \<Rightarrow> Inl e
           | Inr (sp, hp) \<Rightarrow> Inr (s\<lparr>heap := hp, shared := shared s @ [Some sp]\<rparr>)))"
| "step (S_move h) s =
     (case shared_at s h of
        None \<Rightarrow> Inl No_such_handle
      | Some so \<Rightarrow>
          (case SharedPtr_move so (heap s) of
             Inl e \<Rightarrow> Inl e
           | Inr (sp, so') \<Rightarrow> Inr (s\<lparr>shared := (shared s)[h := Some so'] @ [Some sp]\<rparr>)))"
| "step (S_assign h h') s = SharedPtr_copy_assign h h' s"
| "step (S_move_assign h h') s = SharedPtr_move_assign h h' s"
| "step (S_reset h) s = reset h s"
| "step (S_destroy h) s =
     (case shared_at s h of
        None \<Rightarrow> Inl No_such_handle
      | Some sp \<Rightarrow>
          (case SharedPtr_dtor sp (heap s) of
             Inl e \<Rightarrow> Inl e
           | Inr hp \<Rightarrow> Inr (s\<lparr>heap := hp, shared := (shared s)[h := None]\<rparr>)))"
| "step (S_make v) s =
     (case MakeShared v (heap s) of
        Inl e \<Rightarrow> Inl e
      | Inr (sp, hp) \<Rightarrow> Inr (s\<lparr>heap := hp, shared := shared s @ [Some sp]\<rparr>))"
| "step W_default s = Inr (s\<lparr>weak := weak s @ [Some WeakPtr_default]\<rparr>)"
| "step (W_copy h) s =
     (case weak_at s h of
        None \<Rightarrow> Inl No_such_handle
      | Some wo \<Rightarrow> Inr (s\<lparr>weak := weak s @ [Some (WeakPtr_implicit_copy wo)]\<rparr>))"
| "step (W_convert h) s =
     (case weak_at s h of
        None \<Rightarrow> Inl No_such_handle
      | Some wo \<Rightarrow>
          (case WeakPtr_copy wo (heap s) of
             Inl e \<Rightarrow> Inl e
           | Inr (w, hp) \<Rightarrow> Inr (s\<lparr>heap := hp, weak := weak s @ [Some w]\<rparr>)))"
| "step (W_move h) s =
     (case weak_at s h of
        None \<Rightarrow> Inl No_such_handle
      | Some wo \<Rightarrow>
          (case WeakPtr_move wo of
             (w, wo') \<Rightarrow> Inr (s\<lparr>weak := (weak s)[h := Some wo'] @ [Some w]\<rparr>)))"
| "step (W_observe h) s =
     (case shared_at s h of
        None \<Rightarrow> Inl No_such_handle
      | Some so \<Rightarrow>
          (case WeakPtr_from_shared so (heap s) of
             Inl e \<Rightarrow> Inl e
           | Inr (w, hp) \<Rightarrow> Inr (s\<lparr>heap := hp, weak := weak s @ [Some w]\<rparr>)))"
| "step (W_assign h h') s = WeakPtr_copy_assign h h' s"
| "step (W_move_assign h h') s = WeakPtr_move_assign h h' s"
| "step (W_destroy h) s =
     (case weak_at s h of
        None \<Rightarrow> Inl No_such_handle
      | Some w \<Rightarrow>
          (case WeakPtr_dtor w (heap s) of
             Inl e \<Rightarrow> Inl e
           | Inr hp \<Rightarrow> Inr (s\<lparr>heap := hp, weak := (weak s)[h := None]\<rparr>)))"

fun run :: "'v op list \<Rightarrow> 'v state \<Rightarrow> error + 'v state" where
  "run [] s = Inr s"
| "run (x # xs) s = (case step x s of Inl e \<Rightarrow> Inl e | Inr s' \<Rightarrow> run xs s')"

definition init :: "'v state" where
  "init = \<lparr>heap = \<lparr>counters = [], trace = []\<rparr>, shared = [], weak = []\<rparr>"

text \<open>The handles that refer to the block at \<open>a\<close>, and what the log says about it.\<close>

definition refers :: "nat \<Rightarrow> SharedPtr option \<Rightarrow> bool" where
  "refers a x = (case x of None \<Rightarrow> False | Some sp \<Rightarrow> ptr_counter sp = Some a)"

definition observes :: "nat \<Rightarrow> WeakPtr option \<Rightarrow> bool" where
  "observes a x = (case x of None \<Rightarrow> False | Some w \<Rightarrow> weak_ptr_counter w = Some a)"

definition strong_handles :: "'v state \<Rightarrow> nat \<Rightarrow> nat" where
  "strong_handles s a = length (filter (refers a) (shared s))"

definition weak_handles :: "'v state \<Rightarrow> nat \<Rightarrow> nat" where
  "weak_handles s a = length (filter (observes a) (weak s))"

definition direct :: "'v heap \<Rightarrow> nat \<Rightarrow> bool" where
  "direct hp a = (Allocate Direct_block a \<in> set (trace hp))"

definition destroys :: "'v heap \<Rightarrow> nat \<Rightarrow> nat" where
  "destroys hp a = count_list (trace hp) (Destroy a)"

definition deallocations :: "'v heap \<Rightarrow> nat \<Rightarrow> nat" where
  "deallocations hp a = count_list (trace hp) (Deallocate a)"

definition is_allocation :: "event \<Rightarrow> bool" where
  "is_allocation e = (case e of Allocate bt a \<Rightarrow> True | _ \<Rightarrow> False)"

definition allocations :: "'v heap \<Rightarrow> nat" where
  "allocations hp = length (filter is_allocation (trace hp))"

section \<open>The invariant of the counting protocol\<close>

text \<open>
  \<open>block_ok acc rs rw hp a\<close> relates the block at \<open>a\<close> to the number \<open>rs\<close> of strong
  and \<open>rw\<close> of weak references to it.  For a block that was allocated as a
  \<open>DirectPtrCounter\<close>: while it is allocated, the shared count is \<open>rs\<close>, \<open>destroy()\<close>
  has run once if the shared count is 0 and not at all otherwise, and \<open>deallocate()\<close> has
  not run; once it is freed, nothing refers to it, and \<open>destroy()\<close> and \<open>deallocate()\<close>
  have run once each.  The weak count is tied to \<open>rw\<close> only when \<open>acc\<close> holds (the
  program has not copied a weak handle to one of its own type); then the two counts of an
  allocated block are not both 0.
\<close>

definition is_direct_variant :: "'v variant \<Rightarrow> bool" where
  "is_direct_variant x = (case x of DirectPtrCounter p \<Rightarrow> True | NonDirectPtrCounter v \<Rightarrow> False)"

definition block_ok :: "bool \<Rightarrow> nat \<Rightarrow> nat \<Rightarrow> 'v heap \<Rightarrow> nat \<Rightarrow> bool" where
  "block_ok acc rs rw hp a =
     (if direct hp a then
        a < length (counters hp) \<and>
        (case counter_at hp a of
           Some c \<Rightarrow>
             is_direct_variant (variant c) \<and>
             unat (shared_count c) = rs \<and>
             destroys hp a = (if shared_count c = 0 then 1 else 0) \<and>
             deallocations hp a = 0 \<and>
             (acc \<longrightarrow> unat (weak_count c) = rw \<and> (shared_count c \<noteq> 0 \<or> weak_count c \<noteq> 0))
         | None \<Rightarrow>
             rs = 0 \<and> (acc \<longrightarrow> rw = 0) \<and> destroys hp a = 1 \<and> deallocations hp a = 1)
      else rs = 0 \<and> (acc \<longrightarrow> rw = 0) \<and>
           (length (counters hp) \<le> a \<longrightarrow> destroys hp a = 0 \<and> deallocations hp a = 0))"

definition heap_ok :: "bool \<Rightarrow> (nat \<Rightarrow> nat) \<Rightarrow> (nat \<Rightarrow> nat) \<Rightarrow> 'v heap \<Rightarrow> bool" where
  "heap_ok acc rs rw hp = (\<forall>a. block_ok acc (rs a) (rw a) hp a)"

text \<open>A handle without a control block caches no object pointer.\<close>

definition empty_is_null :: "'v state \<Rightarrow> bool" where
  "empty_is_null s =
     (\<forall>h sp. shared_at s h = Some sp \<longrightarrow> ptr_counter sp = None \<longrightarrow> ptr sp = Null)"

definition handle_ok :: "SharedPtr option \<Rightarrow> bool" where
  "handle_ok x = (case x of None \<Rightarrow> True | Some sp \<Rightarrow> ptr_counter sp = None \<longrightarrow> ptr sp = Null)"

definition state_ok :: "bool \<Rightarrow> 'v state \<Rightarrow> bool" where
  "state_ok acc s =
     (heap_ok acc (strong_handles s) (weak_handles s) (heap s) \<and> empty_is_null s)"

text \<open>
  The counts are 32 bits wide.  \<open>few_strong s\<close>: no block has \<open>2 ^ 32\<close> or more strong
  handles referring to it; \<open>few_weak s\<close>: the same for weak handles.  \<open>always P ops s\<close>:
  \<open>P\<close> holds in \<open>s\<close> and in every state the program \<open>ops\<close> reaches from it.
\<close>

definition few_strong :: "'v state \<Rightarrow> bool" where
  "few_strong s =
     (\<forall>x \<in> set (shared s).
        case x of
          None \<Rightarrow> True
        | Some sp \<Rightarrow>
            (case ptr_counter sp of None \<Rightarrow> True | Some a \<Rightarrow> strong_handles s a < 2 ^ 32))"

definition few_weak :: "'v state \<Rightarrow> bool" where
  "few_weak s =
     (\<forall>x \<in> set (weak s).
        case x of
          None \<Rightarrow> True
        | Some w \<Rightarrow>
            (case weak_ptr_counter w of None \<Rightarrow> True | Some a \<Rightarrow> weak_handles s a < 2 ^ 32))"

definition few_handles :: "'v state \<Rightarrow> bool" where
  "few_handles s = (few_strong s \<and> few_weak s)"

fun always :: "('v state \<Rightarrow> bool) \<Rightarrow> 'v op list \<Rightarrow> 'v state \<Rightarrow> bool" where
  "always P [] s = P s"
| "always P (x # xs) s =
     (P s \<and> (case step x s of Inl e \<Rightarrow> True | Inr s' \<Rightarrow> always P xs s'))"

definition is_weak_copy :: "'v op \<Rightarrow> bool" where
  "is_weak_copy x = (case x of W_copy h \<Rightarrow> True | W_assign h h' \<Rightarrow> True | _ \<Rightarrow> False)"

text \<open>What a program, run from the initial state, leaves behind.\<close>

definition use_count_after :: "unit op list \<Rightarrow> nat \<Rightarrow> error + 32 word" where
  "use_count_after ops h =
     (case run ops init of
        Inl e \<Rightarrow> Inl e
      | Inr s \<Rightarrow>
          (case shared_at s h of
             None \<Rightarrow> Inl No_such_handle
           | Some sp \<Rightarrow> use_count sp (heap s)))"

definition strong_handles_after :: "unit op list \<Rightarrow> nat \<Rightarrow> error + nat" where
  "strong_handles_after ops a =
     (case run ops init of Inl e \<Rightarrow> Inl e | Inr s \<Rightarrow> Inr (strong_handles s a))"

definition destroys_after :: "unit op list \<Rightarrow> nat \<Rightarrow> error + nat" where
  "destroys_after ops a =
     (case run ops init of Inl e \<Rightarrow> Inl e | Inr s \<Rightarrow> Inr (destroys (heap s) a))"



lemmas exec_defs =
  init_def shared_at_def weak_at_def SharedPtr_default_def WeakPtr_default_def
  SharedPtr_from_raw_def SharedPtr_copy_def SharedPtr_move_def SharedPtr_dtor_def
  SharedPtr_copy_assign_def SharedPtr_move_assign_def SharedPtr_copy_assign_body_def
  SharedPtr_move_assign_body_def reset_def MakeShared_def SharedPtr_from_counter_def
  WeakPtr_copy_def WeakPtr_move_def WeakPtr_from_shared_def WeakPtr_dtor_def
  WeakPtr_copy_assign_def WeakPtr_move_assign_def WeakPtr_implicit_copy_def
  WeakPtr_implicit_copy_assign_def
  WeakPtr_move_assign_body_def expired_def lock_def get_def use_count_def
  allocate_def deallocate_def destroy_def delete_ptr_def store_def deref_def counter_at_def
  incr_shared_def incr_weak_def increment_shared_count_def decrement_shared_count_def
  increment_weak_count_def decrement_weak_count_def get_shared_count_def get_weak_count_def
  get_ptr_def strong_handles_def weak_handles_def direct_def destroys_def deallocations_def
  allocations_def is_allocation_def few_strong_def few_weak_def few_handles_def is_weak_copy_def
  Let_def

section \<open>Heap primitives and the invariant\<close>

lemma counter_at_store [simp]:
  "counter_at (store a c hp) b = (if b = a \<and> a < length (counters hp) then Some c else counter_at hp b)"
  by (simp add: counter_at_def store_def nth_list_update)

lemma length_counters_store [simp]: "length (counters (store a c hp)) = length (counters hp)"
  by (simp add: store_def)

lemma trace_store [simp]: "trace (store a c hp) = trace hp"
  by (simp add: store_def)

lemma counter_at_deallocate [simp]:
  "counter_at (deallocate a hp) b = (if b = a then None else counter_at hp b)"
  by (simp add: counter_at_def deallocate_def nth_list_update)

lemma length_counters_deallocate [simp]: "length (counters (deallocate a hp)) = length (counters hp)"
  by (simp add: deallocate_def)

lemma trace_deallocate [simp]: "trace (deallocate a hp) = trace hp @ [Deallocate a]"
  by (simp add: deallocate_def)

lemma counter_at_trace_update [simp]: "counter_at (hp\<lparr>trace := t\<rparr>) b = counter_at hp b"
  by (simp add: counter_at_def)

lemma deref_Inr [simp]: "(deref hp a = Inr c) = (counter_at hp a = Some c)"
  by (simp add: deref_def split: option.splits)

lemma deref_Inl [simp]: "(deref hp a = Inl e) = (counter_at hp a = None \<and> e = Use_after_free)"
  by (auto simp add: deref_def split: option.splits)

lemma counter_at_Some_length: "counter_at hp a = Some c \<Longrightarrow> a < length (counters hp)"
  by (simp add: counter_at_def split: if_splits)

text \<open>
  \<open>delete_ptr\<close> changes no \<open>DirectPtrCounter\<close> and logs only \<open>Delete\<close> events.
\<close>

lemma delete_ptr_frame:
  assumes "delete_ptr p hp = Inr hp1"
  shows "length (counters hp1) = length (counters hp)"
    and "direct hp1 = direct hp"
    and "destroys hp1 = destroys hp"
    and "deallocations hp1 = deallocations hp"
    and "\<And>b c. counter_at hp b = Some c \<Longrightarrow> is_direct_variant (variant c) \<Longrightarrow> counter_at hp1 b = Some c"
    and "\<And>b. counter_at hp b = None \<Longrightarrow> counter_at hp1 b = None"
  using assms
  by (auto simp: delete_ptr_def direct_def destroys_def deallocations_def counter_at_def
      is_direct_variant_def nth_list_update fun_eq_iff
      split: pointer.splits option.splits variant.splits if_splits)

lemma count_list_append [simp]: "count_list (xs @ ys) x = count_list xs x + count_list ys x"
  by (induction xs) auto

lemma block_ok_frame:
  assumes "block_ok acc rs rw hp b"
    and "direct hp' b = direct hp b"
    and "length (counters hp') = length (counters hp)"
    and "counter_at hp' b = counter_at hp b"
    and "destroys hp' b = destroys hp b"
    and "deallocations hp' b = deallocations hp b"
  shows "block_ok acc rs rw hp' b"
  using assms by (auto simp add: block_ok_def split: option.splits if_splits)

lemma block_ok_delete_ptr:
  assumes "delete_ptr p hp = Inr hp1" and "block_ok acc rs rw hp b"
  shows "block_ok acc rs rw hp1 b"
proof (cases "direct hp b")
  case False
  with assms show ?thesis by (simp add: block_ok_def delete_ptr_frame)
next
  case True
  show ?thesis
  proof (cases "counter_at hp b")
    case None
    with True assms show ?thesis
      by (simp add: block_ok_def delete_ptr_frame)
  next
    case (Some c)
    with True assms(2) have "is_direct_variant (variant c)" by (simp add: block_ok_def)
    with Some have "counter_at hp1 b = Some c" using delete_ptr_frame(5)[OF assms(1)] by blast
    with True Some assms show ?thesis
      by (simp add: block_ok_def delete_ptr_frame)
  qed
qed

lemma block_ok_log_other:
  assumes "block_ok acc rs rw hp b" and "e \<noteq> Allocate Direct_block b" "e \<noteq> Destroy b" "e \<noteq> Deallocate b"
  shows "block_ok acc rs rw (hp\<lparr>trace := trace hp @ [e]\<rparr>) b"
  using assms by (auto simp add: block_ok_def direct_def destroys_def deallocations_def split: option.splits if_splits)

lemma block_ok_store_other:
  assumes "block_ok acc rs rw hp b" and "b \<noteq> a"
  shows "block_ok acc rs rw (store a c hp) b"
  using assms by (auto simp add: block_ok_def direct_def destroys_def deallocations_def split: option.splits if_splits)

lemma block_ok_deallocate_other:
  assumes "block_ok acc rs rw hp b" and "b \<noteq> a"
  shows "block_ok acc rs rw (deallocate a hp) b"
  using assms by (auto simp add: block_ok_def direct_def destroys_def deallocations_def split: option.splits if_splits)

lemma destroy_direct:
  assumes "counter_at hp a = Some c" "variant c = DirectPtrCounter p" "destroy a hp = Inr hp'"
  shows "\<exists>hp1. delete_ptr p (hp\<lparr>trace := trace hp @ [Destroy a]\<rparr>) = Inr hp1 \<and>
               hp' = store a (c\<lparr>variant := DirectPtrCounter Null\<rparr>) hp1"
  using assms by (auto simp: destroy_def deref_def split: sum.splits)

lemma word32_pred: "(w :: 32 word) \<noteq> 0 \<Longrightarrow> unat (w - 1) = unat w - 1"
  by (simp add: unat_minus_one)

lemma word32_pred_zero: "((w :: 32 word) - 1 = 0) = (w = 1)"
  by auto

lemma SharedPtr_dtor_ok:
  assumes inv: "heap_ok acc rs rw hp"
    and run: "SharedPtr_dtor sp hp = Inr hp'"
    and sp: "ptr_counter sp = Some a"
    and pos: "0 < rs a"
  shows "heap_ok acc (rs(a := rs a - 1)) rw hp'"
proof -
  from inv have oka: "block_ok acc (rs a) (rw a) hp a" by (simp add: heap_ok_def)
  from oka pos have dir: "direct hp a" and len: "a < length (counters hp)"
    by (auto simp: block_ok_def split: if_splits)
  from oka pos dir obtain c where c: "counter_at hp a = Some c"
    by (cases "counter_at hp a") (auto simp: block_ok_def)
  from oka dir c obtain p where p: "variant c = DirectPtrCounter p"
    by (cases "variant c") (auto simp: block_ok_def is_direct_variant_def)
  from oka dir c have cnt: "unat (shared_count c) = rs a"
    "acc \<longrightarrow> unat (weak_count c) = rw a" "destroys hp a = (if shared_count c = 0 then 1 else 0)"
    "deallocations hp a = 0"
    by (auto simp: block_ok_def)
  from cnt pos have nz: "shared_count c \<noteq> 0" by auto
  have others: "\<And>b. b \<noteq> a \<Longrightarrow> block_ok acc (rs b) (rw b) hp b"
    using inv by (simp add: heap_ok_def)
  show ?thesis
  proof (cases "shared_count c = 1")
    case False
    with run sp c nz have hp': "hp' = store a (decrement_shared_count c) hp"
      by (simp add: SharedPtr_dtor_def deref_def get_shared_count_def decrement_shared_count_def
          word_gt_0 Let_def word32_pred_zero)
    have "block_ok acc (rs a - 1) (rw a) hp' a"
      using oka dir c p cnt nz False len
      by (simp add: hp' block_ok_def decrement_shared_count_def direct_def destroys_def
          deallocations_def is_direct_variant_def word32_pred word32_pred_zero)
    with others show ?thesis
      by (auto simp: heap_ok_def hp' block_ok_store_other)
  next
    case True
    let ?c1 = "decrement_shared_count c"
    let ?hp1 = "store a ?c1 hp"
    have c1: "counter_at ?hp1 a = Some ?c1" using len by simp
    from run sp c nz True obtain hp2 where d: "destroy a ?hp1 = Inr hp2"
      and rest: "(case deref hp2 a of Inl e \<Rightarrow> Inl e
                  | Inr c2 \<Rightarrow> if get_weak_count c2 = 0 then Inr (deallocate a hp2) else Inr hp2) = Inr hp'"
      by (auto simp add: SharedPtr_dtor_def deref_def get_shared_count_def decrement_shared_count_def
          Let_def split: sum.splits)
    have v1: "variant ?c1 = DirectPtrCounter p" using p by (simp add: decrement_shared_count_def)
    from destroy_direct[OF c1 v1 d] obtain hp1' where
      del: "delete_ptr p (?hp1\<lparr>trace := trace ?hp1 @ [Destroy a]\<rparr>) = Inr hp1'"
      and hp2: "hp2 = store a (?c1\<lparr>variant := DirectPtrCounter Null\<rparr>) hp1'" by blast
    note fr = delete_ptr_frame[OF del]
    have len1: "a < length (counters hp1')" using fr(1) len by simp
    let ?c2 = "?c1\<lparr>variant := DirectPtrCounter Null\<rparr>"
    have c2: "counter_at hp2 a = Some ?c2" using hp2 len1 by simp
    from rest c2 have hp': "hp' = (if weak_count c = 0 then deallocate a hp2 else hp2)"
      by (auto simp: deref_def get_weak_count_def decrement_shared_count_def split: if_splits)
    have rs1: "rs a = 1" using cnt True by simp
    have oth1: "\<And>b. b \<noteq> a \<Longrightarrow> block_ok acc (rs b) (rw b) hp1' b"
    proof -
      fix b assume ba: "b \<noteq> a"
      have "block_ok acc (rs b) (rw b) ?hp1 b" using others[OF ba] ba by (rule block_ok_store_other)
      then have "block_ok acc (rs b) (rw b) (?hp1\<lparr>trace := trace ?hp1 @ [Destroy a]\<rparr>) b"
        using ba by (intro block_ok_log_other) auto
      then show "block_ok acc (rs b) (rw b) hp1' b" using del by (rule block_ok_delete_ptr[rotated])
    qed
    have oth2: "\<And>b. b \<noteq> a \<Longrightarrow> block_ok acc (rs b) (rw b) hp' b"
      using oth1 by (auto simp: hp' hp2 block_ok_store_other block_ok_deallocate_other)
    have obs: "direct hp1' a" "destroys hp1' a = 1" "deallocations hp1' a = 0"
      using dir cnt nz by (simp_all add: fr direct_def destroys_def deallocations_def)
    have "block_ok acc 0 (rw a) hp' a"
      using obs len1 cnt True
      by (auto simp add: hp' hp2 block_ok_def decrement_shared_count_def direct_def destroys_def
          deallocations_def is_direct_variant_def unat_eq_zero)
    with oth2 rs1 show ?thesis
      by (auto simp: heap_ok_def)
  qed
qed

lemma heap_ok_cong:
  assumes "heap_ok acc rs rw hp" "\<And>b. rs' b = rs b" "\<And>b. rw' b = rw b"
  shows "heap_ok acc rs' rw' hp"
  using assms by (simp add: heap_ok_def)

lemma SharedPtr_dtor_release:
  assumes "heap_ok acc rs rw hp"
    and "SharedPtr_dtor sp hp = Inr hp'"
    and "ptr_counter sp = Some a"
    and "\<And>b. rs b = rs' b + (if b = a then 1 else 0)"
  shows "heap_ok acc rs' rw hp'"
proof -
  have "0 < rs a" using assms(4)[of a] by simp
  from SharedPtr_dtor_ok[OF assms(1-3) this] show ?thesis
    by (rule heap_ok_cong) (use assms(4) in auto)
qed

lemma SharedPtr_dtor_empty: "ptr_counter sp = None \<Longrightarrow> SharedPtr_dtor sp hp = Inr hp"
  by (simp add: SharedPtr_dtor_def)

lemma word32_succ: "Suc (unat (w :: 32 word)) < 2 ^ 32 \<Longrightarrow> unat (w + 1) = Suc (unat w)"
  by (simp add: unat_word_ariths)

lemma word32_succ_nz: "Suc (unat (w :: 32 word)) < 2 ^ 32 \<Longrightarrow> w + 1 \<noteq> 0"
  using word32_succ[of w] by (metis Zero_not_Suc unat_0)

lemma incr_shared_ok:
  assumes inv: "heap_ok acc rs rw hp"
    and run: "incr_shared a hp = Inr hp'"
    and pos: "0 < rs a"
    and bound: "rs' a < 2 ^ 32"
    and rs': "\<And>b. rs' b = rs b + (if b = a then 1 else 0)"
  shows "heap_ok acc rs' rw hp'"
proof -
  from run obtain c where c: "counter_at hp a = Some c" and hp': "hp' = store a (increment_shared_count c) hp"
    by (auto simp: incr_shared_def deref_def split: option.splits)
  from inv have oka: "block_ok acc (rs a) (rw a) hp a" by (simp add: heap_ok_def)
  have len: "a < length (counters hp)" using c by (rule counter_at_Some_length)
  have b: "Suc (rs a) < 2 ^ 32" using bound rs'[of a] by simp
  have "block_ok acc (Suc (rs a)) (rw a) hp' a"
    using oka pos c len b
    by (auto simp: block_ok_def hp' increment_shared_count_def direct_def destroys_def deallocations_def
        word32_succ word32_succ_nz split: if_splits)
  moreover have "\<And>b. b \<noteq> a \<Longrightarrow> block_ok acc (rs b) (rw b) hp' b"
    using inv unfolding hp' heap_ok_def
    by (simp add: block_ok_store_other)
  ultimately show ?thesis
    by (auto simp: heap_ok_def rs')
qed

lemma incr_weak_ok:
  assumes inv: "heap_ok acc rs rw hp"
    and run: "incr_weak a hp = Inr hp'"
    and dir: "acc \<longrightarrow> direct hp a"
    and bound: "acc \<longrightarrow> rw' a < 2 ^ 32"
    and rw': "\<And>b. rw' b = rw b + (if b = a then 1 else 0)"
  shows "heap_ok acc rs rw' hp'"
proof -
  from run obtain c where c: "counter_at hp a = Some c" and hp': "hp' = store a (increment_weak_count c) hp"
    by (auto simp: incr_weak_def deref_def split: option.splits)
  from inv have oka: "block_ok acc (rs a) (rw a) hp a" by (simp add: heap_ok_def)
  have len: "a < length (counters hp)" using c by (rule counter_at_Some_length)
  have b: "acc \<longrightarrow> Suc (rw a) < 2 ^ 32" using bound rw'[of a] by simp
  have "block_ok acc (rs a) (Suc (rw a)) hp' a"
    using oka c len b dir
    by (auto simp: block_ok_def hp' increment_weak_count_def direct_def destroys_def deallocations_def
        word32_succ word32_succ_nz split: if_splits)
  moreover have "\<And>b. b \<noteq> a \<Longrightarrow> block_ok acc (rs b) (rw b) hp' b"
    using inv unfolding hp' heap_ok_def
    by (simp add: block_ok_store_other)
  ultimately show ?thesis
    by (auto simp: heap_ok_def rw')
qed

lemma weak_release_ok:
  assumes inv: "heap_ok acc rs rw hp"
    and c: "counter_at hp a = Some c"
    and pos: "acc \<longrightarrow> 0 < rw a"
    and c1: "c1 = (if weak_count c \<noteq> 0 then decrement_weak_count c else c)"
    and hp': "hp' = (if weak_count c1 = 0 \<and> shared_count c1 = 0 then deallocate a (store a c1 hp) else store a c1 hp)"
    and rw': "\<And>b. rw b = rw' b + (if b = a then 1 else 0)"
  shows "heap_ok acc rs rw' hp'"
proof -
  from inv have oka: "block_ok acc (rs a) (rw a) hp a" by (simp add: heap_ok_def)
  have len: "a < length (counters hp)" using c by (rule counter_at_Some_length)
  have accpos: "acc \<Longrightarrow> rw a = Suc (rw' a)" using rw'[of a] by simp
  have "block_ok acc (rs a) (rw' a) hp' a"
    using oka c len pos accpos
    by (auto simp: block_ok_def hp' c1 decrement_weak_count_def direct_def destroys_def deallocations_def
        word32_pred word32_pred_zero unat_eq_zero split: if_splits)
  moreover have "\<And>b. b \<noteq> a \<Longrightarrow> block_ok acc (rs b) (rw b) hp' b"
    using inv unfolding hp' heap_ok_def
    by (simp add: block_ok_store_other block_ok_deallocate_other)
  ultimately show ?thesis
    unfolding heap_ok_def
  proof (intro allI)
    fix b
    assume 1: "block_ok acc (rs a) (rw' a) hp' a"
      and 2: "\<And>b. b \<noteq> a \<Longrightarrow> block_ok acc (rs b) (rw b) hp' b"
    show "block_ok acc (rs b) (rw' b) hp' b"
    proof (cases "b = a")
      case True with 1 show ?thesis by simp
    next
      case False with 2[OF False] rw'[of b] show ?thesis by simp
    qed
  qed
qed

lemma WeakPtr_dtor_release:
  assumes "heap_ok acc rs rw hp"
    and "WeakPtr_dtor w hp = Inr hp'"
    and "weak_ptr_counter w = Some a"
    and "\<And>b. rw b = rw' b + (if b = a then 1 else 0)"
  shows "heap_ok acc rs rw' hp'"
proof -
  from assms(2,3) obtain c where c: "counter_at hp a = Some c"
    by (auto simp: WeakPtr_dtor_def deref_def split: option.splits)
  show ?thesis
  proof (rule weak_release_ok[OF assms(1) c _ refl _ assms(4)])
    show "acc \<longrightarrow> 0 < rw a" using assms(4)[of a] by simp
    show "hp' = (if weak_count (if weak_count c \<noteq> 0 then decrement_weak_count c else c) = 0 \<and>
                    shared_count (if weak_count c \<noteq> 0 then decrement_weak_count c else c) = 0
                 then deallocate a (store a (if weak_count c \<noteq> 0 then decrement_weak_count c else c) hp)
                 else store a (if weak_count c \<noteq> 0 then decrement_weak_count c else c) hp)"
      using assms(2,3) c
      by (auto simp: WeakPtr_dtor_def deref_def Let_def get_weak_count_def get_shared_count_def word_gt_0
          split: if_splits)
  qed
qed

lemma WeakPtr_dtor_empty: "weak_ptr_counter w = None \<Longrightarrow> WeakPtr_dtor w hp = Inr hp"
  by (simp add: WeakPtr_dtor_def)

section \<open>Statements and the invariant\<close>

lemma filter_count_update:
  "h < length xs \<Longrightarrow>
   length (filter P (xs[h := x])) + (if P (xs ! h) then 1 else 0) =
   length (filter P xs) + (if P x then 1 else 0)"
proof (induction xs arbitrary: h)
  case Nil
  then show ?case by simp
next
  case (Cons y ys)
  show ?case
  proof (cases h)
    case 0
    then show ?thesis by simp
  next
    case (Suc k)
    with Cons.prems have "k < length ys" by simp
    from Cons.IH[OF this] Suc show ?thesis by simp
  qed
qed

lemma filter_count_pos: "h < length xs \<Longrightarrow> P (xs ! h) \<Longrightarrow> 0 < length (filter P xs)"
  by (induction xs arbitrary: h) (auto split: nat.splits simp: nth_Cons)

lemma block_ok_allocate_other:
  assumes "block_ok acc rs rw hp b" and "b \<noteq> length (counters hp)"
  shows "block_ok acc rs rw (snd (allocate bt c hp)) b"
  using assms
  by (auto simp add: block_ok_def allocate_def direct_def destroys_def deallocations_def
      counter_at_def nth_append split: option.splits if_splits)

lemma heap_ok_allocate_nondirect:
  assumes "heap_ok acc rs rw hp"
  shows "heap_ok acc rs rw (snd (allocate NonDirect_block c hp))"
  unfolding heap_ok_def
proof
  fix b
  from assms have ok: "block_ok acc (rs b) (rw b) hp b" by (simp add: heap_ok_def)
  show "block_ok acc (rs b) (rw b) (snd (allocate NonDirect_block c hp)) b"
  proof (cases "b = length (counters hp)")
    case False
    with ok show ?thesis by (rule block_ok_allocate_other)
  next
    case True
    with ok show ?thesis
      by (auto simp add: block_ok_def allocate_def direct_def split: if_splits)
  qed
qed

lemma SharedPtr_from_raw_ok:
  assumes inv: "heap_ok acc rs rw hp"
    and run: "SharedPtr_from_raw p hp = Inr (sp, hp')"
    and rs': "\<And>b. rs' b = rs b + (if b = length (counters hp) then 1 else 0)"
  shows "heap_ok acc rs' rw hp'"
    and "sp = \<lparr>ptr_counter = Some (length (counters hp)), ptr = p\<rparr>"
proof -
  let ?a = "length (counters hp)"
  let ?c = "\<lparr>shared_count = 0, weak_count = 0, variant = DirectPtrCounter p\<rparr> :: 'a BasePtrCounter"
  let ?hp1 = "snd (allocate Direct_block ?c hp)"
  have at: "counter_at ?hp1 ?a = Some ?c"
    by (simp add: allocate_def counter_at_def)
  from run have hp': "hp' = store ?a (increment_shared_count ?c) ?hp1"
    and sp: "sp = \<lparr>ptr_counter = Some ?a, ptr = p\<rparr>"
    using at by (auto simp: SharedPtr_from_raw_def incr_shared_def deref_def allocate_def counter_at_def
        split: sum.splits)
  show "sp = \<lparr>ptr_counter = Some ?a, ptr = p\<rparr>" by (rule sp)
  show "heap_ok acc rs' rw hp'"
    unfolding heap_ok_def
  proof
    fix b
    from inv have ok: "block_ok acc (rs b) (rw b) hp b" by (simp add: heap_ok_def)
    show "block_ok acc (rs' b) (rw b) hp' b"
    proof (cases "b = ?a")
      case False
      from ok False have "block_ok acc (rs b) (rw b) ?hp1 b" by (rule block_ok_allocate_other)
      then have "block_ok acc (rs b) (rw b) hp' b"
        unfolding hp' using False by (simp add: block_ok_store_other)
      with False show ?thesis by (simp add: rs')
    next
      case True
      from ok True have "rs b = 0" "acc \<longrightarrow> rw b = 0" "destroys hp b = 0" "deallocations hp b = 0"
        by (auto simp: block_ok_def split: if_splits)
      with True show ?thesis
        by (simp add: block_ok_def hp' rs' allocate_def store_def direct_def destroys_def deallocations_def
            counter_at_def increment_shared_count_def is_direct_variant_def)
    qed
  qed
qed

lemma SharedPtr_move_result:
  assumes "SharedPtr_move so hp = Inr (sp, so')"
  shows "ptr_counter sp = ptr_counter so" "ptr_counter so' = None" "ptr so' = Null"
    and "ptr so \<noteq> Null \<or> ptr_counter so = None \<Longrightarrow> ptr sp = ptr so"
  using assms by (auto simp: SharedPtr_move_def get_def split: sum.splits option.splits if_splits)

lemma MakeShared_ok:
  assumes inv: "heap_ok acc rs rw hp"
    and run: "MakeShared v hp = Inr (sp, hp')"
    and rs': "\<And>b. rs' b = rs b + (if b = Suc (length (counters hp)) then 1 else 0)"
  shows "heap_ok acc rs' rw hp'"
    and "sp = \<lparr>ptr_counter = Some (Suc (length (counters hp))), ptr = Counter_obj (length (counters hp))\<rparr>"
proof -
  let ?c = "\<lparr>shared_count = 0, weak_count = 0, variant = NonDirectPtrCounter v\<rparr>"
  let ?hp1 = "snd (allocate NonDirect_block ?c hp)"
  have len1: "length (counters ?hp1) = Suc (length (counters hp))" by (simp add: allocate_def)
  from run obtain loc hp2 res loc' where
      raw: "SharedPtr_from_raw (Counter_obj (length (counters hp))) ?hp1 = Inr (loc, hp2)"
    and mv: "SharedPtr_move loc hp2 = Inr (res, loc')"
    and dt: "SharedPtr_dtor loc' hp2 = Inr hp'" and res: "sp = res"
    by (auto simp: MakeShared_def allocate_def split: sum.splits prod.splits)
  have ok1: "heap_ok acc rs rw ?hp1" using inv by (rule heap_ok_allocate_nondirect)
  have rs1: "\<And>b. rs' b = rs b + (if b = length (counters ?hp1) then 1 else 0)"
    by (simp add: rs' len1)
  note r = SharedPtr_from_raw_ok[OF ok1 raw rs1]
  from SharedPtr_move_result[OF mv] r(2) have "ptr_counter loc' = None"
    and res': "res = \<lparr>ptr_counter = Some (Suc (length (counters hp))), ptr = Counter_obj (length (counters hp))\<rparr>"
    by (auto simp: len1)
  with dt have "hp' = hp2" by (simp add: SharedPtr_dtor_empty)
  with r(1) show "heap_ok acc rs' rw hp'" by simp
  from res res' show "sp = \<lparr>ptr_counter = Some (Suc (length (counters hp))), ptr = Counter_obj (length (counters hp))\<rparr>"
    by simp
qed

lemma refers_simps [simp]:
  "refers a None = False" "refers a (Some sp) = (ptr_counter sp = Some a)"
  by (simp_all add: refers_def)

lemma observes_simps [simp]:
  "observes a None = False" "observes a (Some w) = (weak_ptr_counter w = Some a)"
  by (simp_all add: observes_def)

lemma shared_atD: "shared_at s h = Some sp \<Longrightarrow> h < length (shared s) \<and> shared s ! h = Some sp"
  by (simp add: shared_at_def split: if_splits)

lemma weak_atD: "weak_at s h = Some w \<Longrightarrow> h < length (weak s) \<and> weak s ! h = Some w"
  by (simp add: weak_at_def split: if_splits)

lemma strong_handles_pos:
  "shared_at s h = Some sp \<Longrightarrow> ptr_counter sp = Some a \<Longrightarrow> 0 < strong_handles s a"
  unfolding strong_handles_def
  by (rule filter_count_pos[of h]) (auto dest: shared_atD)

lemma weak_handles_pos:
  "weak_at s h = Some w \<Longrightarrow> weak_ptr_counter w = Some a \<Longrightarrow> 0 < weak_handles s a"
  unfolding weak_handles_def
  by (rule filter_count_pos[of h]) (auto dest: weak_atD)

lemma heap_okD: "heap_ok acc rs rw hp \<Longrightarrow> block_ok acc (rs a) (rw a) hp a"
  by (simp add: heap_ok_def)

lemma heap_ok_direct_strong: "heap_ok acc rs rw hp \<Longrightarrow> 0 < rs a \<Longrightarrow> direct hp a"
  using heap_okD[of acc rs rw hp a] by (auto simp: block_ok_def split: if_splits)

lemma heap_ok_direct_weak: "heap_ok True rs rw hp \<Longrightarrow> 0 < rw a \<Longrightarrow> direct hp a"
  using heap_okD[of True rs rw hp a] by (auto simp: block_ok_def split: if_splits)

lemma block_ok_any_weak: "block_ok False rs rw hp a \<Longrightarrow> block_ok False rs rw' hp a"
  by (auto simp add: block_ok_def split: if_splits option.splits)

lemma heap_ok_any_weak: "heap_ok False rs rw hp \<Longrightarrow> heap_ok False rs rw' hp"
  unfolding heap_ok_def by (blast intro: block_ok_any_weak)

lemma heap_ok_eq:
  assumes "heap_ok acc rs rw hp" "hp' = hp" "\<And>b. rs' b = rs b" "\<And>b. rw' b = rw b"
  shows "heap_ok acc rs' rw' hp'"
  using assms by (simp add: heap_ok_def)

text \<open>The handle table after a statement, as reference counts.\<close>

lemma strong_append:
  "length (filter (refers b) (xs @ [Some sp])) =
   length (filter (refers b) xs) + (if ptr_counter sp = Some b then 1 else 0)"
  by simp

lemma strong_detach:
  assumes "h < length xs" "xs ! h = Some sp"
  shows "length (filter (refers b) xs) =
         length (filter (refers b) (xs[h := None])) + (if ptr_counter sp = Some b then 1 else 0)"
  using filter_count_update[OF assms(1), of "refers b" None] assms(2) by simp

lemma strong_attach:
  assumes "h < length xs" "xs ! h = None"
  shows "length (filter (refers b) (xs[h := Some sp])) =
         length (filter (refers b) xs) + (if ptr_counter sp = Some b then 1 else 0)"
  using filter_count_update[OF assms(1), of "refers b" "Some sp"] assms(2) by simp

lemma strong_replace:
  assumes "h < length xs" "xs ! h = Some sp" "ptr_counter sp' = ptr_counter sp"
  shows "length (filter (refers b) (xs[h := Some sp'])) = length (filter (refers b) xs)"
  using filter_count_update[OF assms(1), of "refers b" "Some sp'"] assms(2,3) by simp

lemma weak_detach:
  assumes "h < length xs" "xs ! h = Some w"
  shows "length (filter (observes b) xs) =
         length (filter (observes b) (xs[h := None])) + (if weak_ptr_counter w = Some b then 1 else 0)"
  using filter_count_update[OF assms(1), of "observes b" None] assms(2) by simp

lemma weak_attach:
  assumes "h < length xs" "xs ! h = None"
  shows "length (filter (observes b) (xs[h := Some w])) =
         length (filter (observes b) xs) + (if weak_ptr_counter w = Some b then 1 else 0)"
  using filter_count_update[OF assms(1), of "observes b" "Some w"] assms(2) by simp

lemma weak_replace:
  assumes "h < length xs" "xs ! h = Some w" "weak_ptr_counter w' = weak_ptr_counter w"
  shows "length (filter (observes b) (xs[h := Some w'])) = length (filter (observes b) xs)"
  using filter_count_update[OF assms(1), of "observes b" "Some w'"] assms(2,3) by simp

lemma few_strongD: "few_strong s \<Longrightarrow> strong_handles s a < 2 ^ 32"
proof (cases "strong_handles s a = 0")
  case True
  then show ?thesis by simp
next
  case False
  assume few: "few_strong s"
  from False have "filter (refers a) (shared s) \<noteq> []" by (simp add: strong_handles_def)
  then obtain x where x: "x \<in> set (shared s)" "refers a x" by (meson filter_empty_conv)
  from x(2) obtain sp where "x = Some sp" "ptr_counter sp = Some a" by (cases x) auto
  with few x(1) show ?thesis by (auto simp: few_strong_def dest!: bspec)
qed

lemma few_weakD: "few_weak s \<Longrightarrow> weak_handles s a < 2 ^ 32"
proof (cases "weak_handles s a = 0")
  case True
  then show ?thesis by simp
next
  case False
  assume few: "few_weak s"
  from False have "filter (observes a) (weak s) \<noteq> []" by (simp add: weak_handles_def)
  then obtain x where x: "x \<in> set (weak s)" "observes a x" by (meson filter_empty_conv)
  from x(2) obtain w where "x = Some w" "weak_ptr_counter w = Some a" by (cases x) auto
  with few x(1) show ?thesis by (auto simp: few_weak_def dest!: bspec)
qed

lemma step_S_default:
  assumes "heap_ok acc (strong_handles s) (weak_handles s) (heap s)"
    and "step S_default s = Inr s'"
  shows "heap_ok acc (strong_handles s') (weak_handles s') (heap s')"
proof -
  from assms(2) have s': "s' = s\<lparr>shared := shared s @ [Some SharedPtr_default]\<rparr>" by simp
  from assms(1) have "heap_ok acc (strong_handles s) (weak_handles s) (heap s)"
    .
  then show ?thesis
    by (rule heap_ok_eq) (simp_all add: s' strong_handles_def weak_handles_def SharedPtr_default_def)
qed

lemma step_S_raw:
  assumes "heap_ok acc (strong_handles s) (weak_handles s) (heap s)"
    and "step (S_raw po) s = Inr s'"
  shows "heap_ok acc (strong_handles s') (weak_handles s') (heap s')"
proof -
  let ?p = "case po of None \<Rightarrow> Null | Some n \<Rightarrow> Obj n"
  from assms(2) obtain sp hp where raw: "SharedPtr_from_raw ?p (heap s) = Inr (sp, hp)"
    and s': "s' = s\<lparr>heap := hp, shared := shared s @ [Some sp]\<rparr>"
    by (auto split: sum.splits)
  have sp: "sp = \<lparr>ptr_counter = Some (length (counters (heap s))), ptr = ?p\<rparr>"
    by (rule SharedPtr_from_raw_ok(2)[OF assms(1) raw]) simp
  have "heap_ok acc (strong_handles s') (weak_handles s) hp"
    by (rule SharedPtr_from_raw_ok(1)[OF assms(1) raw]) (simp add: s' sp strong_handles_def)
  then show ?thesis
    by (rule heap_ok_eq) (simp_all add: s' weak_handles_def)
qed

lemma step_S_copy:
  assumes inv: "heap_ok acc (strong_handles s) (weak_handles s) (heap s)"
    and run: "step (S_copy h) s = Inr s'"
    and bound: "few_strong s'"
  shows "heap_ok acc (strong_handles s') (weak_handles s') (heap s')"
proof -
  from run obtain so sp hp where so: "shared_at s h = Some so"
    and cp: "SharedPtr_copy so (heap s) = Inr (sp, hp)"
    and s': "s' = s\<lparr>heap := hp, shared := shared s @ [Some sp]\<rparr>"
    by (auto split: sum.splits option.splits)
  have w: "weak_handles s' = weak_handles s" by (simp add: s' weak_handles_def fun_eq_iff)
  show ?thesis
  proof (cases "ptr_counter so")
    case None
    with cp have e: "hp = heap s" "ptr_counter sp = None"
      by (auto simp: SharedPtr_copy_def split: sum.splits)
    from inv have "heap_ok acc (strong_handles s) (weak_handles s) (heap s)"
    .
    then show ?thesis
      by (rule heap_ok_eq) (simp_all add: e s' strong_handles_def weak_handles_def)
  next
    case (Some a)
    with cp have inc: "incr_shared a (heap s) = Inr hp" and sp: "ptr_counter sp = Some a"
      by (auto simp: SharedPtr_copy_def split: sum.splits)
    have pos: "0 < strong_handles s a" using so Some by (rule strong_handles_pos)
    have "heap_ok acc (strong_handles s') (weak_handles s) hp"
      by (rule incr_shared_ok[where rs' = "strong_handles s'", OF inv inc pos few_strongD[OF bound]])
        (auto simp add: s' sp strong_handles_def)
    then show ?thesis
      by (rule heap_ok_eq) (simp_all add: s' weak_handles_def)
  qed
qed

lemma step_S_move:
  assumes inv: "heap_ok acc (strong_handles s) (weak_handles s) (heap s)"
    and run: "step (S_move h) s = Inr s'"
  shows "heap_ok acc (strong_handles s') (weak_handles s') (heap s')"
proof -
  from run obtain so sp so' where so: "shared_at s h = Some so"
    and mv: "SharedPtr_move so (heap s) = Inr (sp, so')"
    and s': "s' = s\<lparr>shared := (shared s)[h := Some so'] @ [Some sp]\<rparr>"
    by (auto split: sum.splits option.splits)
  note m = SharedPtr_move_result[OF mv]
  from so have h: "h < length (shared s)" "shared s ! h = Some so" by (auto dest: shared_atD)
  have e: "\<And>b. strong_handles s' b = strong_handles s b"
    using strong_detach[OF h] strong_attach[of h "(shared s)[h := None]" _ so'] h(1) m
    by (simp add: s' strong_handles_def)
  from inv have "heap_ok acc (strong_handles s) (weak_handles s) (heap s)"
    .
  then show ?thesis
    by (rule heap_ok_eq) (simp_all add: e, simp_all add: s' weak_handles_def)
qed

lemma release_detached:
  assumes inv: "heap_ok acc (strong_handles s) (weak_handles s) (heap s)"
    and sp: "shared_at s h = Some sp"
    and rel: "(if ptr_counter sp \<noteq> None then SharedPtr_dtor sp (heap s) else Inr (heap s)) = Inr hp"
  shows "heap_ok acc (\<lambda>b. length (filter (refers b) ((shared s)[h := None]))) (weak_handles s) hp"
proof -
  from sp have h: "h < length (shared s)" "shared s ! h = Some sp" by (auto dest: shared_atD)
  show ?thesis
  proof (cases "ptr_counter sp")
    case None
    with rel have e: "hp = heap s" by simp
    from inv show ?thesis
      by (rule heap_ok_eq) (use strong_detach[OF h] None e in \<open>simp_all add: strong_handles_def\<close>)
  next
    case (Some a)
    with rel have d: "SharedPtr_dtor sp (heap s) = Inr hp" by simp
    show ?thesis
      by (rule SharedPtr_dtor_release[OF inv d Some]) (use strong_detach[OF h] Some in \<open>auto simp: strong_handles_def\<close>)
  qed
qed

lemma step_S_destroy:
  assumes inv: "heap_ok acc (strong_handles s) (weak_handles s) (heap s)"
    and run: "step (S_destroy h) s = Inr s'"
  shows "heap_ok acc (strong_handles s') (weak_handles s') (heap s')"
proof -
  from run obtain sp hp where sp: "shared_at s h = Some sp"
    and d: "SharedPtr_dtor sp (heap s) = Inr hp"
    and s': "s' = s\<lparr>heap := hp, shared := (shared s)[h := None]\<rparr>"
    by (auto split: sum.splits option.splits)
  have "(if ptr_counter sp \<noteq> None then SharedPtr_dtor sp (heap s) else Inr (heap s)) = Inr hp"
    using d by (auto simp: SharedPtr_dtor_empty)
  from release_detached[OF inv sp this]
  have "heap_ok acc (\<lambda>b. length (filter (refers b) ((shared s)[h := None]))) (weak_handles s) hp"
    .
  then show ?thesis
    by (rule heap_ok_eq) (simp_all add: s' strong_handles_def weak_handles_def)
qed

lemma get_default [simp]: "get SharedPtr_default hp = Inr Null"
  by (simp add: get_def SharedPtr_default_def)

lemma step_S_reset:
  assumes inv: "heap_ok acc (strong_handles s) (weak_handles s) (heap s)"
    and run: "step (S_reset h) s = Inr s'"
  shows "heap_ok acc (strong_handles s') (weak_handles s') (heap s')"
proof -
  from run obtain sp hp where sp: "shared_at s h = Some sp"
    and rel: "(if ptr_counter sp \<noteq> None then SharedPtr_dtor sp (heap s) else Inr (heap s)) = Inr hp"
    and s': "s' = s\<lparr>heap := hp, shared := (shared s)[h := Some \<lparr>ptr_counter = None, ptr = Null\<rparr>]\<rparr>"
    by (auto simp: reset_def SharedPtr_move_assign_body_def SharedPtr_default_def SharedPtr_dtor_empty
        get_def split: sum.splits option.splits)
  from sp have h: "h < length (shared s)" by (auto dest: shared_atD)
  from release_detached[OF inv sp rel]
  have "heap_ok acc (\<lambda>b. length (filter (refers b) ((shared s)[h := None]))) (weak_handles s) hp"
    .
  then show ?thesis
    by (rule heap_ok_eq)
      (use strong_attach[of h "(shared s)[h := None]" _ "\<lparr>ptr_counter = None, ptr = Null\<rparr>"] h
        in \<open>simp_all add: s' strong_handles_def weak_handles_def\<close>)
qed

lemma step_S_assign:
  assumes inv: "heap_ok acc (strong_handles s) (weak_handles s) (heap s)"
    and run: "step (S_assign h h') s = Inr s'"
    and bound: "few_strong s'"
  shows "heap_ok acc (strong_handles s') (weak_handles s') (heap s')"
proof (cases "h = h'")
  case True
  with run have "s' = s" by (simp add: SharedPtr_copy_assign_def)
  with inv show ?thesis by simp
next
  case False
  from run False obtain sp so sp' hp2 where sp: "shared_at s h = Some sp" and so: "shared_at s h' = Some so"
    and body: "SharedPtr_copy_assign_body sp so (heap s) = Inr (sp', hp2)"
    and s': "s' = s\<lparr>heap := hp2, shared := (shared s)[h := Some sp']\<rparr>"
    by (auto simp: SharedPtr_copy_assign_def split: sum.splits option.splits)
  from body obtain hp1 p where
      rel: "(if ptr_counter sp \<noteq> None then SharedPtr_dtor sp (heap s) else Inr (heap s)) = Inr hp1"
    and p: "get so hp1 = Inr p"
    and rest: "(case ptr_counter so of
                  None \<Rightarrow> Inr (\<lparr>ptr_counter = None, ptr = p\<rparr>, hp1)
                | Some a \<Rightarrow> (case incr_shared a hp1 of Inl e \<Rightarrow> Inl e
                     | Inr hp2 \<Rightarrow> Inr (\<lparr>ptr_counter = Some a, ptr = p\<rparr>, hp2))) = Inr (sp', hp2)"
    by (auto simp: SharedPtr_copy_assign_body_def split: sum.splits)
  let ?xs1 = "(shared s)[h := None]"
  let ?rs1 = "\<lambda>b. length (filter (refers b) ?xs1)"
  from sp so have h: "h < length (shared s)" and h': "h' < length (shared s)" "shared s ! h' = Some so"
    by (auto dest: shared_atD)
  have ok1: "heap_ok acc ?rs1 (weak_handles s) hp1" by (rule release_detached[OF inv sp rel])
  have att: "\<And>b. strong_handles s' b = ?rs1 b + (if ptr_counter sp' = Some b then 1 else 0)"
    using strong_attach[of h ?xs1 _ sp'] h by (simp add: s' strong_handles_def)
  show ?thesis
  proof (cases "ptr_counter so")
    case None
    with rest have e: "hp2 = hp1" "ptr_counter sp' = None" by auto
    from ok1 have "heap_ok acc ?rs1 (weak_handles s) hp1" .
    then show ?thesis
      by (rule heap_ok_eq) (simp_all add: att e, simp_all add: s' e weak_handles_def)
  next
    case (Some a)
    with rest have inc: "incr_shared a hp1 = Inr hp2" and sp': "ptr_counter sp' = Some a"
      by (auto split: sum.splits)
    have pos: "0 < ?rs1 a"
      by (rule filter_count_pos[of h']) (use h' False Some in auto)
    have "heap_ok acc (strong_handles s') (weak_handles s) hp2"
      by (rule incr_shared_ok[where rs' = "strong_handles s'", OF ok1 inc pos few_strongD[OF bound]])
        (auto simp: att sp')
    then show ?thesis
      by (rule heap_ok_eq) (simp_all add: s' weak_handles_def)
  qed
qed

lemma step_S_move_assign:
  assumes inv: "heap_ok acc (strong_handles s) (weak_handles s) (heap s)"
    and run: "step (S_move_assign h h') s = Inr s'"
  shows "heap_ok acc (strong_handles s') (weak_handles s') (heap s')"
proof (cases "h = h'")
  case True
  with run have "s' = s" by (simp add: SharedPtr_move_assign_def)
  with inv show ?thesis by simp
next
  case False
  from run False obtain sp so sp' so' hp1 where sp: "shared_at s h = Some sp" and so: "shared_at s h' = Some so"
    and body: "SharedPtr_move_assign_body sp so (heap s) = Inr (sp', so', hp1)"
    and s': "s' = s\<lparr>heap := hp1, shared := (shared s)[h := Some sp', h' := Some so']\<rparr>"
    by (auto simp: SharedPtr_move_assign_def split: sum.splits option.splits)
  from body have
      rel: "(if ptr_counter sp \<noteq> None then SharedPtr_dtor sp (heap s) else Inr (heap s)) = Inr hp1"
    and sp': "ptr_counter sp' = ptr_counter so" and so': "ptr_counter so' = None"
    by (auto simp: SharedPtr_move_assign_body_def split: sum.splits)
  let ?xs1 = "(shared s)[h := None]"
  let ?rs1 = "\<lambda>b. length (filter (refers b) ?xs1)"
  let ?ys = "(shared s)[h := Some sp']"
  from sp so have h: "h < length (shared s)" and h': "h' < length (shared s)" "shared s ! h' = Some so"
    by (auto dest: shared_atD)
  have ok1: "heap_ok acc ?rs1 (weak_handles s) hp1" by (rule release_detached[OF inv sp rel])
  have att: "\<And>b. length (filter (refers b) ?ys) = ?rs1 b + (if ptr_counter sp' = Some b then 1 else 0)"
    using strong_attach[of h ?xs1 _ sp'] h by simp
  have ys: "h' < length ?ys" "?ys ! h' = Some so" using h' False by auto
  have det: "\<And>b. length (filter (refers b) ?ys) =
      length (filter (refers b) (?ys[h' := None])) + (if ptr_counter so = Some b then 1 else 0)"
    by (rule strong_detach[OF ys])
  have att2: "\<And>b. length (filter (refers b) (?ys[h' := Some so'])) = length (filter (refers b) (?ys[h' := None]))"
    using strong_attach[of h' "?ys[h' := None]" _ so'] ys(1) so' by simp
  have e: "\<And>b. strong_handles s' b = ?rs1 b"
    using att det att2 sp' by (simp add: s' strong_handles_def)
  from ok1 have "heap_ok acc ?rs1 (weak_handles s) hp1" .
  then show ?thesis
    by (rule heap_ok_eq) (simp_all add: e, simp_all add: s' weak_handles_def)
qed

lemma step_S_make:
  assumes "heap_ok acc (strong_handles s) (weak_handles s) (heap s)"
    and "step (S_make v) s = Inr s'"
  shows "heap_ok acc (strong_handles s') (weak_handles s') (heap s')"
proof -
  from assms(2) obtain sp hp where mk: "MakeShared v (heap s) = Inr (sp, hp)"
    and s': "s' = s\<lparr>heap := hp, shared := shared s @ [Some sp]\<rparr>"
    by (auto split: sum.splits)
  have sp: "sp = \<lparr>ptr_counter = Some (Suc (length (counters (heap s)))), ptr = Counter_obj (length (counters (heap s)))\<rparr>"
    by (rule MakeShared_ok(2)[OF assms(1) mk]) simp
  have "heap_ok acc (strong_handles s') (weak_handles s) hp"
    by (rule MakeShared_ok(1)[OF assms(1) mk]) (simp add: s' sp strong_handles_def)
  then show ?thesis
    by (rule heap_ok_eq) (simp_all add: s' weak_handles_def)
qed

lemma step_W_default:
  assumes "heap_ok acc (strong_handles s) (weak_handles s) (heap s)"
    and "step W_default s = Inr s'"
  shows "heap_ok acc (strong_handles s') (weak_handles s') (heap s')"
proof -
  from assms(2) have s': "s' = s\<lparr>weak := weak s @ [Some WeakPtr_default]\<rparr>" by simp
  from assms(1) have "heap_ok acc (strong_handles s) (weak_handles s) (heap s)"
    .
  then show ?thesis
    by (rule heap_ok_eq) (simp_all add: s' strong_handles_def weak_handles_def WeakPtr_default_def)
qed

lemma incr_weak_state:
  assumes inv: "heap_ok acc (strong_handles s) (weak_handles s) (heap s)"
    and inc: "incr_weak a (heap s) = Inr hp"
    and dir: "acc \<longrightarrow> direct (heap s) a"
    and bound: "acc \<longrightarrow> few_weak s'"
    and s': "s' = s\<lparr>heap := hp, weak := weak s @ [Some \<lparr>weak_ptr_counter = Some a\<rparr>]\<rparr>"
  shows "heap_ok acc (strong_handles s') (weak_handles s') (heap s')"
proof -
  have b: "acc \<longrightarrow> weak_handles s' a < 2 ^ 32" using bound few_weakD by blast
  have "heap_ok acc (strong_handles s) (weak_handles s') hp"
    by (rule incr_weak_ok[where rw' = "weak_handles s'", OF inv inc dir b]) (auto simp: s' weak_handles_def)
  then show ?thesis
    by (rule heap_ok_eq) (simp_all add: s' strong_handles_def)
qed

lemma step_W_copy:
  assumes inv: "heap_ok False (strong_handles s) (weak_handles s) (heap s)"
    and run: "step (W_copy h) s = Inr s'"
  shows "heap_ok False (strong_handles s') (weak_handles s') (heap s')"
proof -
  from run obtain wo where s': "s' = s\<lparr>weak := weak s @ [Some (WeakPtr_implicit_copy wo)]\<rparr>"
    by (auto split: option.splits)
  from inv have "heap_ok False (strong_handles s) (weak_handles s') (heap s)"
    by (rule heap_ok_any_weak)
  then show ?thesis
    by (rule heap_ok_eq) (simp_all add: s' strong_handles_def)
qed

lemma step_W_convert:
  assumes inv: "heap_ok acc (strong_handles s) (weak_handles s) (heap s)"
    and run: "step (W_convert h) s = Inr s'"
    and bound: "acc \<longrightarrow> few_weak s'"
  shows "heap_ok acc (strong_handles s') (weak_handles s') (heap s')"
proof -
  from run obtain wo w hp where wo: "weak_at s h = Some wo"
    and cp: "WeakPtr_copy wo (heap s) = Inr (w, hp)"
    and s': "s' = s\<lparr>heap := hp, weak := weak s @ [Some w]\<rparr>"
    by (auto split: sum.splits option.splits)
  show ?thesis
  proof (cases "weak_ptr_counter wo")
    case None
    with cp have e: "hp = heap s" "weak_ptr_counter w = None"
      by (auto simp: WeakPtr_copy_def split: sum.splits)
    from inv have "heap_ok acc (strong_handles s) (weak_handles s) (heap s)"
    .
    then show ?thesis
      by (rule heap_ok_eq) (simp_all add: e s' strong_handles_def weak_handles_def)
  next
    case (Some a)
    with cp have inc: "incr_weak a (heap s) = Inr hp" and w: "w = \<lparr>weak_ptr_counter = Some a\<rparr>"
      by (auto simp: WeakPtr_copy_def split: sum.splits)
    have pos: "0 < weak_handles s a" using wo Some by (rule weak_handles_pos)
    have dir: "acc \<longrightarrow> direct (heap s) a"
    proof
      assume acc
      with inv have "heap_ok True (strong_handles s) (weak_handles s) (heap s)" by simp
      then show "direct (heap s) a" using pos by (rule heap_ok_direct_weak)
    qed
    show ?thesis
      by (rule incr_weak_state[OF inv inc dir bound]) (simp add: s' w)
  qed
qed

lemma step_W_observe:
  assumes inv: "heap_ok acc (strong_handles s) (weak_handles s) (heap s)"
    and run: "step (W_observe h) s = Inr s'"
    and bound: "acc \<longrightarrow> few_weak s'"
  shows "heap_ok acc (strong_handles s') (weak_handles s') (heap s')"
proof -
  from run obtain so w hp where so: "shared_at s h = Some so"
    and cp: "WeakPtr_from_shared so (heap s) = Inr (w, hp)"
    and s': "s' = s\<lparr>heap := hp, weak := weak s @ [Some w]\<rparr>"
    by (auto split: sum.splits option.splits)
  from cp obtain a where a: "ptr_counter so = Some a"
    and inc: "incr_weak a (heap s) = Inr hp" and w: "w = \<lparr>weak_ptr_counter = Some a\<rparr>"
    by (auto simp: WeakPtr_from_shared_def split: sum.splits option.splits)
  have pos: "0 < strong_handles s a" using so a by (rule strong_handles_pos)
  have dir: "acc \<longrightarrow> direct (heap s) a"
    using heap_ok_direct_strong[OF inv pos] by simp
  show ?thesis
    by (rule incr_weak_state[OF inv inc dir bound]) (simp add: s' w)
qed

lemma step_W_move:
  assumes inv: "heap_ok acc (strong_handles s) (weak_handles s) (heap s)"
    and run: "step (W_move h) s = Inr s'"
  shows "heap_ok acc (strong_handles s') (weak_handles s') (heap s')"
proof -
  from run obtain wo where wo: "weak_at s h = Some wo"
    and s': "s' = s\<lparr>weak := (weak s)[h := Some (wo\<lparr>weak_ptr_counter := None\<rparr>)]
                 @ [Some \<lparr>weak_ptr_counter = weak_ptr_counter wo\<rparr>]\<rparr>"
    by (auto simp: WeakPtr_move_def split: sum.splits option.splits)
  from wo have h: "h < length (weak s)" "weak s ! h = Some wo" by (auto dest: weak_atD)
  have e: "\<And>b. weak_handles s' b = weak_handles s b"
    using weak_detach[OF h] weak_attach[of h "(weak s)[h := None]" _ "wo\<lparr>weak_ptr_counter := None\<rparr>"] h(1)
    by (simp add: s' weak_handles_def)
  from inv have "heap_ok acc (strong_handles s) (weak_handles s) (heap s)"
    .
  then show ?thesis
    by (rule heap_ok_eq) (simp_all add: e, simp_all add: s' strong_handles_def)
qed

lemma step_W_destroy:
  assumes inv: "heap_ok acc (strong_handles s) (weak_handles s) (heap s)"
    and run: "step (W_destroy h) s = Inr s'"
  shows "heap_ok acc (strong_handles s') (weak_handles s') (heap s')"
proof -
  from run obtain w hp where w: "weak_at s h = Some w"
    and d: "WeakPtr_dtor w (heap s) = Inr hp"
    and s': "s' = s\<lparr>heap := hp, weak := (weak s)[h := None]\<rparr>"
    by (auto split: sum.splits option.splits)
  from w have h: "h < length (weak s)" "weak s ! h = Some w" by (auto dest: weak_atD)
  have "heap_ok acc (strong_handles s) (weak_handles s') hp"
  proof (cases "weak_ptr_counter w")
    case None
    with d have e: "hp = heap s" by (simp add: WeakPtr_dtor_empty)
    from inv show ?thesis
      by (rule heap_ok_eq) (use weak_detach[OF h] None e in \<open>simp_all add: s' weak_handles_def\<close>)
  next
    case (Some a)
    show ?thesis
      by (rule WeakPtr_dtor_release[OF inv d Some])
        (use weak_detach[OF h] Some in \<open>auto simp: s' weak_handles_def\<close>)
  qed
  then have "heap_ok acc (strong_handles s) (weak_handles s') hp"
    .
  then show ?thesis
    by (rule heap_ok_eq) (simp_all add: s' strong_handles_def)
qed

lemma step_W_assign:
  assumes inv: "heap_ok False (strong_handles s) (weak_handles s) (heap s)"
    and run: "step (W_assign h h') s = Inr s'"
  shows "heap_ok False (strong_handles s') (weak_handles s') (heap s')"
proof -
  from run obtain w wo where
    s': "s' = s\<lparr>weak := (weak s)[h := Some (WeakPtr_implicit_copy_assign w wo)]\<rparr>"
    by (auto simp: WeakPtr_copy_assign_def split: option.splits)
  from inv have "heap_ok False (strong_handles s) (weak_handles s') (heap s)"
    by (rule heap_ok_any_weak)
  then show ?thesis
    by (rule heap_ok_eq) (simp_all add: s' strong_handles_def)
qed

lemma weak_move_release:
  assumes inv: "heap_ok acc rs rw hp"
    and rel: "(case weak_ptr_counter w of
              None \<Rightarrow> Inr hp
            | Some a \<Rightarrow>
                (case deref hp a of
                   Inl e \<Rightarrow> Inl e
                 | Inr c \<Rightarrow>
                     if 0 < get_weak_count c then
                       (let c1 = decrement_weak_count c; hp1 = store a c1 hp
                        in if get_weak_count c1 = 0 \<and> get_shared_count c1 = 0
                           then Inr (deallocate a hp1) else Inr hp1)
                     else Inr hp)) = Inr hp'"
    and rw': "\<And>b. rw b = rw' b + (if weak_ptr_counter w = Some b then 1 else 0)"
  shows "heap_ok acc rs rw' hp'"
proof (cases "weak_ptr_counter w")
  case None
  with rel have "hp' = hp" by simp
  with inv show ?thesis by (auto intro: heap_ok_eq simp: rw' None)
next
  case (Some a)
  with rel obtain c where c: "counter_at hp a = Some c"
    by (auto simp: deref_def split: option.splits)
  from rw' Some have rwa: "\<And>b. rw b = rw' b + (if b = a then 1 else 0)" by auto
  show ?thesis
  proof (cases "weak_count c = 0")
    case False
    show ?thesis
    proof (rule weak_release_ok[OF inv c _ refl _ rwa])
      show "acc \<longrightarrow> 0 < rw a" using rwa[of a] by simp
      show "hp' = (if weak_count (if weak_count c \<noteq> 0 then decrement_weak_count c else c) = 0 \<and>
                    shared_count (if weak_count c \<noteq> 0 then decrement_weak_count c else c) = 0
                 then deallocate a (store a (if weak_count c \<noteq> 0 then decrement_weak_count c else c) hp)
                 else store a (if weak_count c \<noteq> 0 then decrement_weak_count c else c) hp)"
        using rel Some c False
        by (auto simp: deref_def Let_def get_weak_count_def get_shared_count_def word_gt_0 split: if_splits)
    qed
  next
    case True
    with rel Some c have e: "hp' = hp"
      by (simp add: deref_def get_weak_count_def)
    have "\<not> acc"
    proof
      assume acc
      with heap_okD[OF inv, of a] c True rwa[of a] show False
        by (auto simp: block_ok_def split: if_splits)
    qed
    with inv e show ?thesis by (auto intro: heap_ok_any_weak)
  qed
qed

lemma step_W_move_assign:
  assumes inv: "heap_ok acc (strong_handles s) (weak_handles s) (heap s)"
    and run: "step (W_move_assign h h') s = Inr s'"
  shows "heap_ok acc (strong_handles s') (weak_handles s') (heap s')"
proof (cases "h = h'")
  case True
  with run have "s' = s" by (simp add: WeakPtr_move_assign_def)
  with inv show ?thesis by simp
next
  case False
  from run False obtain w wo w' wo' hp1 where w: "weak_at s h = Some w" and wo: "weak_at s h' = Some wo"
    and body: "WeakPtr_move_assign_body w wo (heap s) = Inr (w', wo', hp1)"
    and s': "s' = s\<lparr>heap := hp1, weak := (weak s)[h := Some w', h' := Some wo']\<rparr>"
    by (auto simp: WeakPtr_move_assign_def split: sum.splits option.splits)
  let ?xs1 = "(weak s)[h := None]"
  let ?rw1 = "\<lambda>b. length (filter (observes b) ?xs1)"
  let ?ys = "(weak s)[h := Some w']"
  from w wo have h: "h < length (weak s)" "weak s ! h = Some w" and h': "h' < length (weak s)" "weak s ! h' = Some wo"
    by (auto dest: weak_atD)
  from body have w': "weak_ptr_counter w' = weak_ptr_counter wo" and wo': "weak_ptr_counter wo' = None"
    by (auto simp: WeakPtr_move_assign_body_def split: sum.splits)
  have ok1: "heap_ok acc (strong_handles s) ?rw1 hp1"
  proof (rule weak_move_release[OF inv])
    show "\<And>b. weak_handles s b = ?rw1 b + (if weak_ptr_counter w = Some b then 1 else 0)"
      using weak_detach[OF h] by (simp add: weak_handles_def)
    show "(case weak_ptr_counter w of
              None \<Rightarrow> Inr (heap s)
            | Some a \<Rightarrow>
                (case deref (heap s) a of
                   Inl e \<Rightarrow> Inl e
                 | Inr c \<Rightarrow>
                     if 0 < get_weak_count c then
                       (let c1 = decrement_weak_count c; hp1 = store a c1 (heap s)
                        in if get_weak_count c1 = 0 \<and> get_shared_count c1 = 0
                           then Inr (deallocate a hp1) else Inr hp1)
                     else Inr (heap s))) = Inr hp1"
      using body by (auto simp: WeakPtr_move_assign_body_def split: sum.splits)
  qed
  have att: "\<And>b. length (filter (observes b) ?ys) = ?rw1 b + (if weak_ptr_counter w' = Some b then 1 else 0)"
    using weak_attach[of h ?xs1 _ w'] h by simp
  have ys: "h' < length ?ys" "?ys ! h' = Some wo" using h' False by auto
  have det: "\<And>b. length (filter (observes b) ?ys) =
      length (filter (observes b) (?ys[h' := None])) + (if weak_ptr_counter wo = Some b then 1 else 0)"
    by (rule weak_detach[OF ys])
  have att2: "\<And>b. length (filter (observes b) (?ys[h' := Some wo'])) = length (filter (observes b) (?ys[h' := None]))"
    using weak_attach[of h' "?ys[h' := None]" _ wo'] ys(1) wo' by simp
  have e: "\<And>b. weak_handles s' b = ?rw1 b"
    using att det att2 w' by (simp add: s' weak_handles_def)
  from ok1 have "heap_ok acc (strong_handles s) ?rw1 hp1" .
  then show ?thesis
    by (rule heap_ok_eq) (simp_all add: e, simp_all add: s' strong_handles_def)
qed

lemma empty_is_null_set: "empty_is_null s = (\<forall>x \<in> set (shared s). handle_ok x)"
  unfolding empty_is_null_def shared_at_def handle_ok_def
  by (auto simp: in_set_conv_nth split: option.splits)

lemma handle_ok_update: "\<forall>x \<in> set xs. handle_ok x \<Longrightarrow> handle_ok y \<Longrightarrow> \<forall>x \<in> set (xs[h := y]). handle_ok x"
  using set_update_subset_insert[of xs h y] by auto

lemma handle_ok_at: "empty_is_null s \<Longrightarrow> shared_at s h = Some sp \<Longrightarrow> ptr_counter sp = None \<Longrightarrow> ptr sp = Null"
  by (simp add: empty_is_null_def)

lemma get_of_empty: "get so hp = Inr p \<Longrightarrow> ptr_counter so = None \<Longrightarrow> ptr so = Null \<Longrightarrow> p = Null"
  by (simp add: get_def)

lemma handle_ok_simps [simp]: "handle_ok None" "handle_ok (Some sp) = (ptr_counter sp = None \<longrightarrow> ptr sp = Null)"
  by (simp_all add: handle_ok_def)

lemma step_empty_is_null:
  assumes inv: "empty_is_null s" and run: "step x s = Inr s'"
  shows "empty_is_null s'"
proof -
  from inv have all: "\<forall>x \<in> set (shared s). handle_ok x" by (simp add: empty_is_null_set)
  note at = handle_ok_at[OF inv]
  show ?thesis
  proof (cases x)
    case S_default
    with run all show ?thesis by (auto simp: empty_is_null_set SharedPtr_default_def)
  next
    case (S_raw po)
    with run all show ?thesis
      by (auto simp: empty_is_null_set SharedPtr_from_raw_def allocate_def incr_shared_def split: sum.splits)
  next
    case (S_copy h)
    with run obtain so sp hp where so: "shared_at s h = Some so"
      and cp: "SharedPtr_copy so (heap s) = Inr (sp, hp)"
      and s': "s' = s\<lparr>heap := hp, shared := shared s @ [Some sp]\<rparr>"
      by (auto split: sum.splits option.splits)
    from cp at[OF so] have "handle_ok (Some sp)"
      by (auto simp: SharedPtr_copy_def split: sum.splits option.splits dest: get_of_empty)
    with all show ?thesis by (auto simp: empty_is_null_set s')
  next
    case (S_move h)
    with run obtain so sp so' where so: "shared_at s h = Some so"
      and mv: "SharedPtr_move so (heap s) = Inr (sp, so')"
      and s': "s' = s\<lparr>shared := (shared s)[h := Some so'] @ [Some sp]\<rparr>"
      by (auto split: sum.splits option.splits)
    from mv at[OF so] have "handle_ok (Some sp)" "handle_ok (Some so')"
      by (auto simp: SharedPtr_move_def split: sum.splits dest: get_of_empty)
    with all show ?thesis
      using handle_ok_update[OF all, of "Some so'" h] by (auto simp: empty_is_null_set s')
  next
    case (S_assign h h')
    show ?thesis
    proof (cases "h = h'")
      case True
      with run S_assign inv show ?thesis by (simp add: SharedPtr_copy_assign_def)
    next
      case False
      with run S_assign obtain sp so sp' hp2 where so: "shared_at s h' = Some so"
        and body: "SharedPtr_copy_assign_body sp so (heap s) = Inr (sp', hp2)"
        and s': "s' = s\<lparr>heap := hp2, shared := (shared s)[h := Some sp']\<rparr>"
        by (auto simp: SharedPtr_copy_assign_def split: sum.splits option.splits)
      from body at[OF so] have "handle_ok (Some sp')"
        by (auto simp: SharedPtr_copy_assign_body_def split: sum.splits option.splits dest: get_of_empty)
      from handle_ok_update[OF all this] show ?thesis by (simp add: empty_is_null_set s')
    qed
  next
    case (S_move_assign h h')
    show ?thesis
    proof (cases "h = h'")
      case True
      with run S_move_assign inv show ?thesis by (simp add: SharedPtr_move_assign_def)
    next
      case False
      with run S_move_assign obtain sp so sp' so' hp1 where so: "shared_at s h' = Some so"
        and body: "SharedPtr_move_assign_body sp so (heap s) = Inr (sp', so', hp1)"
        and s': "s' = s\<lparr>heap := hp1, shared := (shared s)[h := Some sp', h' := Some so']\<rparr>"
        by (auto simp: SharedPtr_move_assign_def split: sum.splits option.splits)
      from body at[OF so] have 1: "handle_ok (Some sp')" and 2: "handle_ok (Some so')"
        by (auto simp: SharedPtr_move_assign_body_def split: sum.splits option.splits dest: get_of_empty)
      from handle_ok_update[OF handle_ok_update[OF all 1] 2] show ?thesis
        by (simp add: empty_is_null_set s')
    qed
  next
    case (S_reset h)
    with run obtain hp where s': "s' = s\<lparr>heap := hp, shared := (shared s)[h := Some \<lparr>ptr_counter = None, ptr = Null\<rparr>]\<rparr>"
      by (auto simp: reset_def SharedPtr_move_assign_body_def SharedPtr_default_def SharedPtr_dtor_empty
        get_def split: sum.splits option.splits)
    from handle_ok_update[OF all, of "Some \<lparr>ptr_counter = None, ptr = Null\<rparr>" h] show ?thesis
      by (simp add: empty_is_null_set s')
  next
    case (S_destroy h)
    with run obtain hp where s': "s' = s\<lparr>heap := hp, shared := (shared s)[h := None]\<rparr>"
      by (auto split: sum.splits option.splits)
    from handle_ok_update[OF all, of None h] show ?thesis
      by (simp add: empty_is_null_set s')
  next
    case (S_make v)
    with run obtain sp hp where mk: "MakeShared v (heap s) = Inr (sp, hp)"
      and s': "s' = s\<lparr>heap := hp, shared := shared s @ [Some sp]\<rparr>"
      by (auto split: sum.splits)
    from mk have "ptr_counter sp \<noteq> None"
      by (auto simp: MakeShared_def SharedPtr_from_raw_def SharedPtr_move_def get_def
          allocate_def incr_shared_def deref_def counter_at_def split: sum.splits prod.splits if_splits option.splits)
    with all show ?thesis by (auto simp: empty_is_null_set s')
  next
    case W_default
    with run all show ?thesis by (auto simp: empty_is_null_set)
  next
    case (W_copy h)
    with run all show ?thesis by (auto simp: empty_is_null_set split: sum.splits option.splits)
  next
    case (W_convert h)
    with run all show ?thesis by (auto simp: empty_is_null_set split: sum.splits option.splits)
  next
    case (W_move h)
    with run all show ?thesis by (auto simp: empty_is_null_set split: sum.splits option.splits prod.splits)
  next
    case (W_observe h)
    with run all show ?thesis by (auto simp: empty_is_null_set split: sum.splits option.splits)
  next
    case (W_assign h h')
    with run all show ?thesis
      by (auto simp: empty_is_null_set WeakPtr_copy_assign_def split: sum.splits option.splits if_splits)
  next
    case (W_move_assign h h')
    with run all show ?thesis
      by (auto simp: empty_is_null_set WeakPtr_move_assign_def split: sum.splits option.splits if_splits)
  next
    case (W_destroy h)
    with run all show ?thesis by (auto simp: empty_is_null_set split: sum.splits option.splits)
  qed
qed

lemma step_state_ok:
  assumes inv: "state_ok acc s" and run: "step x s = Inr s'"
    and bound: "few_strong s'" and wbound: "acc \<longrightarrow> few_weak s'"
    and acc: "acc \<longrightarrow> \<not> is_weak_copy x"
  shows "state_ok acc s'"
proof -
  from inv have hp: "heap_ok acc (strong_handles s) (weak_handles s) (heap s)" and e: "empty_is_null s"
    by (simp_all add: state_ok_def)
  have "heap_ok acc (strong_handles s') (weak_handles s') (heap s')"
  proof (cases x)
    case S_default
    with hp run show ?thesis by (blast intro: step_S_default)
  next
    case (S_raw po)
    with hp run show ?thesis by (blast intro: step_S_raw)
  next
    case (S_copy h)
    with hp run bound show ?thesis by (blast intro: step_S_copy)
  next
    case (S_move h)
    with hp run show ?thesis by (blast intro: step_S_move)
  next
    case (S_assign h h')
    with hp run bound show ?thesis by (blast intro: step_S_assign)
  next
    case (S_move_assign h h')
    with hp run show ?thesis by (blast intro: step_S_move_assign)
  next
    case (S_reset h)
    with hp run show ?thesis by (blast intro: step_S_reset)
  next
    case (S_destroy h)
    with hp run show ?thesis by (blast intro: step_S_destroy)
  next
    case (S_make v)
    with hp run show ?thesis by (blast intro: step_S_make)
  next
    case W_default
    with hp run show ?thesis by (blast intro: step_W_default)
  next
    case (W_copy h)
    with acc have "\<not> acc" by (simp add: is_weak_copy_def)
    with hp run W_copy show ?thesis using step_W_copy[of s h s'] by simp
  next
    case (W_convert h)
    with hp run wbound show ?thesis by (blast intro: step_W_convert)
  next
    case (W_move h)
    with hp run show ?thesis by (blast intro: step_W_move)
  next
    case (W_observe h)
    with hp run wbound show ?thesis by (blast intro: step_W_observe)
  next
    case (W_assign h h')
    with acc have "\<not> acc" by (simp add: is_weak_copy_def)
    with hp run W_assign show ?thesis using step_W_assign[of s h h' s'] by simp
  next
    case (W_move_assign h h')
    with hp run show ?thesis by (blast intro: step_W_move_assign)
  next
    case (W_destroy h)
    with hp run show ?thesis by (blast intro: step_W_destroy)
  qed
  with step_empty_is_null[OF e run] show ?thesis by (simp add: state_ok_def)
qed

lemma state_ok_init: "state_ok acc init"
  by (simp add: state_ok_def heap_ok_def block_ok_def init_def strong_handles_def weak_handles_def
      direct_def destroys_def deallocations_def empty_is_null_def shared_at_def)

lemma always_here: "always P xs s \<Longrightarrow> P s"
  by (cases xs) simp_all

lemma run_state_ok:
  assumes "state_ok acc s" and "run xs s = Inr s'"
    and "always few_strong xs s" and "acc \<longrightarrow> always few_weak xs s"
    and "acc \<longrightarrow> (\<forall>x \<in> set xs. \<not> is_weak_copy x)"
  shows "state_ok acc s'"
  using assms
proof (induction xs arbitrary: s)
  case Nil
  then show ?case by simp
next
  case (Cons x xs)
  from Cons.prems(2) obtain s1 where s1: "step x s = Inr s1" and r: "run xs s1 = Inr s'"
    by (auto split: sum.splits)
  from Cons.prems(3) s1 have a1: "always few_strong xs s1" by simp
  from Cons.prems(4) s1 have a2: "acc \<longrightarrow> always few_weak xs s1" by simp
  have "state_ok acc s1"
    by (rule step_state_ok[OF Cons.prems(1) s1]) (use a1 a2 Cons.prems(5) in \<open>auto dest: always_here\<close>)
  from Cons.IH[OF this r a1 a2] Cons.prems(5) show ?case by simp
qed


lemma run_heap_ok:
  assumes "run ops init = Inr s" and "always few_strong ops init"
    and "acc \<longrightarrow> always few_weak ops init \<and> (\<forall>x \<in> set ops. \<not> is_weak_copy x)"
  shows "heap_ok acc (strong_handles s) (weak_handles s) (heap s)"
  using run_state_ok[OF state_ok_init assms(1,2), of acc] assms(3)
  by (simp add: state_ok_def)

lemma block_ok_allocated:
  assumes "block_ok acc rs rw hp a" and "0 < rs"
  shows "\<exists>c. counter_at hp a = Some c \<and> unat (shared_count c) = rs"
  using assms by (cases "counter_at hp a") (auto simp: block_ok_def split: if_splits)

lemma run_empty_is_null:
  "empty_is_null s \<Longrightarrow> run xs s = Inr s' \<Longrightarrow> empty_is_null s'"
proof (induction xs arbitrary: s)
  case Nil
  then show ?case by simp
next
  case (Cons x xs)
  from Cons.prems(2) obtain s1 where s1: "step x s = Inr s1" and r: "run xs s1 = Inr s'"
    by (auto split: sum.splits)
  from Cons.IH[OF step_empty_is_null[OF Cons.prems(1) s1] r] show ?case .
qed

lemma empty_is_null_init: "empty_is_null init"
  by (simp add: empty_is_null_def init_def shared_at_def)

lemma run_append:
  "run (xs @ ys) s = (case run xs s of Inl e \<Rightarrow> Inl e | Inr s' \<Rightarrow> run ys s')"
  by (induction xs arbitrary: s) (auto split: sum.splits)

lemma store_store [simp]: "store a x (store a y hp) = store a x hp"
  by (simp add: store_def)

lemma store_same: "counter_at hp a = Some c \<Longrightarrow> store a c hp = hp"
  by (simp add: store_def counter_at_def list_update_same_conv split: if_splits)

lemma filter_replicate_length:
  "length (filter P (replicate n x)) = (if P x then n else 0)"
  by (induction n) auto

section \<open>Copies that wrap the shared count\<close>

text \<open>
  \<open>n\<close> copies of the handle \<open>0\<close> add \<open>n\<close> to the shared count of its block, in
  32-bit arithmetic, and \<open>n\<close> handles to the table.
\<close>

lemma run_copies:
  assumes "shared_at s 0 = Some sp" "ptr sp \<noteq> Null" "ptr_counter sp = Some a"
    and "counter_at (heap s) a = Some c"
  shows "run (replicate n (S_copy 0)) s =
         Inr (s\<lparr>heap := store a (c\<lparr>shared_count := shared_count c + of_nat n\<rparr>) (heap s),
                shared := shared s @ replicate n (Some \<lparr>ptr_counter = Some a, ptr = ptr sp\<rparr>)\<rparr>)"
  using assms
proof (induction n arbitrary: s c)
  case 0
  then show ?case by (simp add: store_same)
next
  case (Suc n)
  let ?c1 = "c\<lparr>shared_count := shared_count c + 1\<rparr>"
  let ?s1 = "s\<lparr>heap := store a ?c1 (heap s), shared := shared s @ [Some \<lparr>ptr_counter = Some a, ptr = ptr sp\<rparr>]\<rparr>"
  have len: "a < length (counters (heap s))" using Suc.prems(4) by (rule counter_at_Some_length)
  have st: "step (S_copy 0) s = Inr ?s1"
    using Suc.prems
    by (simp add: SharedPtr_copy_def get_def incr_shared_def deref_def increment_shared_count_def)
  have 1: "shared_at ?s1 0 = Some sp" using Suc.prems(1)
    by (simp add: shared_at_def nth_append split: if_splits)
  have 2: "counter_at (heap ?s1) a = Some ?c1" using len by simp
  from Suc.IH[OF 1 Suc.prems(2,3) 2] st show ?case
    by (simp add: replicate_app_Cons_same add.assoc)
qed

lemma run_wrap:
  "run (S_raw (Some 0) # replicate 4294967295 (S_copy 0)) (init :: unit state) =
     Inr \<lparr>heap = \<lparr>counters = [Some \<lparr>shared_count = 0, weak_count = 0, variant = DirectPtrCounter (Obj 0)\<rparr>],
                  trace = [Allocate Direct_block 0]\<rparr>,
          shared = Some \<lparr>ptr_counter = Some 0, ptr = Obj 0\<rparr> #
                   replicate 4294967295 (Some \<lparr>ptr_counter = Some 0, ptr = Obj 0\<rparr>),
          weak = []\<rparr>"
proof -
  let ?s1 = "\<lparr>heap = \<lparr>counters = [Some \<lparr>shared_count = 1, weak_count = 0, variant = DirectPtrCounter (Obj 0) :: unit variant\<rparr>],
                  trace = [Allocate Direct_block 0]\<rparr>,
          shared = [Some \<lparr>ptr_counter = Some 0, ptr = Obj 0\<rparr>], weak = []\<rparr>"
  have 1: "step (S_raw (Some 0)) init = Inr ?s1" by (simp add: exec_defs)
  have 2: "shared_at ?s1 0 = Some \<lparr>ptr_counter = Some 0, ptr = Obj 0\<rparr>" by (simp add: shared_at_def)
  have 3: "counter_at (heap ?s1) 0 = Some \<lparr>shared_count = 1, weak_count = 0, variant = DirectPtrCounter (Obj 0)\<rparr>"
    by (simp add: counter_at_def)
  from run_copies[OF 2 _ _ 3, of 4294967295] 1 show ?thesis
    by (simp add: store_def)
qed

lemma run_wrap_observed:
  "run ([S_raw (Some 0), W_observe 0] @ replicate 4294967295 (S_copy 0)) (init :: unit state) =
     Inr \<lparr>heap = \<lparr>counters = [Some \<lparr>shared_count = 0, weak_count = 1, variant = DirectPtrCounter (Obj 0)\<rparr>],
                  trace = [Allocate Direct_block 0]\<rparr>,
          shared = Some \<lparr>ptr_counter = Some 0, ptr = Obj 0\<rparr> #
                   replicate 4294967295 (Some \<lparr>ptr_counter = Some 0, ptr = Obj 0\<rparr>),
          weak = [Some \<lparr>weak_ptr_counter = Some 0\<rparr>]\<rparr>"
proof -
  let ?s1 = "\<lparr>heap = \<lparr>counters = [Some \<lparr>shared_count = 1, weak_count = 1, variant = DirectPtrCounter (Obj 0) :: unit variant\<rparr>],
                  trace = [Allocate Direct_block 0]\<rparr>,
          shared = [Some \<lparr>ptr_counter = Some 0, ptr = Obj 0\<rparr>], weak = [Some \<lparr>weak_ptr_counter = Some 0\<rparr>]\<rparr>"
  have 1: "run [S_raw (Some 0), W_observe 0] init = Inr ?s1" by (simp add: exec_defs)
  have 2: "shared_at ?s1 0 = Some \<lparr>ptr_counter = Some 0, ptr = Obj 0\<rparr>" by (simp add: shared_at_def)
  have 3: "counter_at (heap ?s1) 0 = Some \<lparr>shared_count = 1, weak_count = 1, variant = DirectPtrCounter (Obj 0)\<rparr>"
    by (simp add: counter_at_def)
  from run_copies[OF 2 _ _ 3, of 4294967295] 1 show ?thesis
    unfolding run_append by (simp add: store_def)
qed

section \<open>The claims\<close>

text \<open>
  C1.  In every run without undefined behaviour, over all the statements of \<open>op\<close>, in
  which no block ever has \<open>2 ^ 32\<close> or more strong handles, \<open>use_count()\<close> on a live
  handle that refers to a block is the number of live strong handles that refer to that
  block.
\<close>

theorem use_count_is_number_of_strong_handles:
  assumes "run ops init = Inr s" and "always few_strong ops init"
    and "shared_at s h = Some sp" and "ptr_counter sp = Some a"
  shows "\<exists>c. use_count sp (heap s) = Inr c \<and> unat c = strong_handles s a"
proof -
  have ok: "heap_ok False (strong_handles s) (weak_handles s) (heap s)"
    using assms(1,2) by (rule run_heap_ok) simp
  have pos: "0 < strong_handles s a" using assms(3,4) by (rule strong_handles_pos)
  from block_ok_allocated[OF heap_okD[OF ok] pos] obtain c where
    c: "counter_at (heap s) a = Some c" and u: "unat (shared_count c) = strong_handles s a"
    by blast
  with assms(4) show ?thesis
    by (simp add: use_count_def deref_def get_shared_count_def)
qed

text \<open>
  A run for C1: a raw-pointer construction, a copy, a move, a \<open>MakeShared\<close>, a copy
  assignment that releases the \<open>MakeShared\<close> block, a weak observer and a reset.  Three
  handles are left on block 0 and \<open>use_count()\<close> is 3.
\<close>

theorem use_count_is_number_of_strong_handles_witness:
  "run [S_raw (Some 5), S_copy 0, S_move 1, S_make (), S_assign 3 0, W_observe 0, S_reset 1] init =
     Inr \<lparr>heap = \<lparr>counters =
                    [Some \<lparr>shared_count = 3, weak_count = 1, variant = DirectPtrCounter (Obj 5)\<rparr>,
                     None, None],
                  trace = [Allocate Direct_block 0, Allocate NonDirect_block 1, Allocate Direct_block 2,
                           Destroy 2, Delete (Counter_obj 1), Deallocate 2]\<rparr>,
          shared = [Some \<lparr>ptr_counter = Some 0, ptr = Obj 5\<rparr>, Some \<lparr>ptr_counter = None, ptr = Null\<rparr>,
                    Some \<lparr>ptr_counter = Some 0, ptr = Obj 5\<rparr>, Some \<lparr>ptr_counter = Some 0, ptr = Obj 5\<rparr>],
          weak = [Some \<lparr>weak_ptr_counter = Some 0\<rparr>]\<rparr> \<and>
   always few_strong
     [S_raw (Some 5), S_copy 0, S_move 1, S_make (), S_assign 3 0, W_observe 0, S_reset 1] init \<and>
   use_count \<lparr>ptr_counter = Some 0, ptr = Obj 5\<rparr>
     \<lparr>counters = [Some \<lparr>shared_count = 3, weak_count = 1, variant = DirectPtrCounter (Obj 5)\<rparr>, None, None],
      trace = [Allocate Direct_block 0, Allocate NonDirect_block 1, Allocate Direct_block 2,
               Destroy 2, Delete (Counter_obj 1), Deallocate 2]\<rparr> = Inr 3"
proof -
  let ?ops = "[S_raw (Some 5), S_copy 0, S_move 1, S_make (), S_assign 3 0, W_observe 0, S_reset 1]"
  let ?s = "\<lparr>heap = \<lparr>counters =
                    [Some \<lparr>shared_count = 3, weak_count = 1, variant = DirectPtrCounter (Obj 5)\<rparr>,
                     None, None],
                  trace = [Allocate Direct_block 0, Allocate NonDirect_block 1, Allocate Direct_block 2,
                           Destroy 2, Delete (Counter_obj 1), Deallocate 2]\<rparr>,
          shared = [Some \<lparr>ptr_counter = Some 0, ptr = Obj 5\<rparr>, Some \<lparr>ptr_counter = None, ptr = Null\<rparr>,
                    Some \<lparr>ptr_counter = Some 0, ptr = Obj 5\<rparr>, Some \<lparr>ptr_counter = Some 0, ptr = Obj 5\<rparr>],
          weak = [Some \<lparr>weak_ptr_counter = Some 0\<rparr>]\<rparr>"
  have r: "run ?ops init = Inr ?s" by (simp add: exec_defs)
  have b: "always few_strong ?ops (init :: unit state)" by (simp add: exec_defs)
  have a: "shared_at ?s 2 = Some \<lparr>ptr_counter = Some 0, ptr = Obj 5\<rparr>" by (simp add: shared_at_def)
  from use_count_is_number_of_strong_handles[OF r b a] r b show ?thesis
    by (simp add: exec_defs)
qed

text \<open>
  C1 as stated, for every sequence, fails: after one raw-pointer construction and
  \<open>2 ^ 32 - 1\<close> copies, \<open>2 ^ 32\<close> live handles share block 0 and \<open>use_count()\<close> is 0.
\<close>

theorem use_count_wraps_counterexample:
  "use_count_after (S_raw (Some 0) # replicate 4294967295 (S_copy 0)) 0 = Inr 0 \<and>
   strong_handles_after (S_raw (Some 0) # replicate 4294967295 (S_copy 0)) 0 = Inr 4294967296"
  unfolding use_count_after_def strong_handles_after_def run_wrap
  by (simp add: shared_at_def use_count_def deref_def counter_at_def get_shared_count_def
      strong_handles_def filter_replicate_length)

text \<open>
  C2.  In every run without undefined behaviour in which no block ever has \<open>2 ^ 32\<close> or
  more strong handles, and for every block allocated for a handle: \<open>destroy()\<close> has run
  exactly once if no strong handle refers to the block any more, and not at all while one
  does; and the shared count of the block, while it is allocated, is the number of those
  handles.  The call of \<open>destroy()\<close> is therefore made by the statement that takes the
  count from 1 to 0, and by no other.
\<close>

theorem destroy_runs_once_when_strong_count_reaches_zero:
  assumes "run ops init = Inr s" and "always few_strong ops init" and "direct (heap s) a"
  shows "destroys (heap s) a = (if strong_handles s a = 0 then 1 else 0) \<and>
         (case counter_at (heap s) a of
            Some c \<Rightarrow> unat (shared_count c) = strong_handles s a
          | None \<Rightarrow> strong_handles s a = 0)"
proof -
  have ok: "heap_ok False (strong_handles s) (weak_handles s) (heap s)"
    using assms(1,2) by (rule run_heap_ok) simp
  from heap_okD[OF ok, of a] assms(3) show ?thesis
    by (auto simp: block_ok_def unat_eq_zero unat_gt_0[symmetric] split: option.splits if_splits)
qed

text \<open>
  A run for C2: of two strong handles the first is destroyed (count 2 to 1, no
  \<open>destroy()\<close>), then the second (count 1 to 0, \<open>destroy()\<close> once); a weak handle keeps the
  block.
\<close>

theorem destroy_runs_once_witness:
  "run [S_raw (Some 5), S_copy 0, W_observe 0, S_destroy 0] init =
     Inr \<lparr>heap = \<lparr>counters = [Some \<lparr>shared_count = 1, weak_count = 1, variant = DirectPtrCounter (Obj 5)\<rparr>],
                  trace = [Allocate Direct_block 0]\<rparr>,
          shared = [None, Some \<lparr>ptr_counter = Some 0, ptr = Obj 5\<rparr>],
          weak = [Some \<lparr>weak_ptr_counter = Some 0\<rparr>]\<rparr> \<and>
   run [S_raw (Some 5), S_copy 0, W_observe 0, S_destroy 0, S_destroy 1] init =
     Inr \<lparr>heap = \<lparr>counters = [Some \<lparr>shared_count = 0, weak_count = 1, variant = DirectPtrCounter Null\<rparr>],
                  trace = [Allocate Direct_block 0, Destroy 0, Delete (Obj 5)]\<rparr>,
          shared = [None, None],
          weak = [Some \<lparr>weak_ptr_counter = Some 0\<rparr>]\<rparr> \<and>
   always few_strong [S_raw (Some 5), S_copy 0, W_observe 0, S_destroy 0, S_destroy 1] (init :: unit state) \<and>
   destroys \<lparr>counters = [Some \<lparr>shared_count = 0, weak_count = 1, variant = DirectPtrCounter Null :: unit variant\<rparr>],
             trace = [Allocate Direct_block 0, Destroy 0, Delete (Obj 5)]\<rparr> 0 = 1"
proof -
  let ?ops = "[S_raw (Some 5), S_copy 0, W_observe 0, S_destroy 0, S_destroy 1]"
  let ?s = "\<lparr>heap = \<lparr>counters = [Some \<lparr>shared_count = 0, weak_count = 1, variant = DirectPtrCounter Null :: unit variant\<rparr>],
                  trace = [Allocate Direct_block 0, Destroy 0, Delete (Obj 5)]\<rparr>,
          shared = [None, None],
          weak = [Some \<lparr>weak_ptr_counter = Some 0\<rparr>]\<rparr>"
  have r: "run ?ops init = Inr ?s" by (simp add: exec_defs)
  have b: "always few_strong ?ops (init :: unit state)" by (simp add: exec_defs)
  have d: "direct (heap ?s) 0" by (simp add: direct_def)
  from destroy_runs_once_when_strong_count_reaches_zero[OF r b d] r b show ?thesis
    by (simp add: exec_defs)
qed

text \<open>
  C2 as stated, for every execution, fails: with a weak observer keeping the block and
  \<open>2 ^ 32\<close> strong handles on it, the shared count is 0; each further copy followed by the
  destruction of a handle takes the count from 1 to 0 again, and \<open>destroy()\<close> runs a second
  time.
\<close>

theorem destroy_runs_twice_counterexample:
  "destroys_after
     ([S_raw (Some 0), W_observe 0] @ replicate 4294967295 (S_copy 0) @
      [S_copy 0, S_destroy 1, S_copy 0, S_destroy 2]) 0 = Inr 2"
proof -
  have "run (([S_raw (Some 0), W_observe 0] @ replicate 4294967295 (S_copy 0)) @
      [S_copy 0, S_destroy 1, S_copy 0, S_destroy 2]) (init :: unit state) =
      run [S_copy 0, S_destroy 1, S_copy 0, S_destroy 2]
        \<lparr>heap = \<lparr>counters = [Some \<lparr>shared_count = 0, weak_count = 1, variant = DirectPtrCounter (Obj 0)\<rparr>],
                  trace = [Allocate Direct_block 0]\<rparr>,
          shared = Some \<lparr>ptr_counter = Some 0, ptr = Obj 0\<rparr> #
                   replicate 4294967295 (Some \<lparr>ptr_counter = Some 0, ptr = Obj 0\<rparr>),
          weak = [Some \<lparr>weak_ptr_counter = Some 0\<rparr>]\<rparr>"
    unfolding run_append[of "_ @ _"] run_wrap_observed by simp
  then show ?thesis
    unfolding destroys_after_def
    by (simp add: exec_defs nth_append nth_Cons')
qed




text \<open>
  Why the copies of a weak handle to a handle of its own type are left out of C3: the copy
  constructor that the compiler declares increments nothing, so a weak count of 1 stands
  for two handles.  The destruction of the first of them, after the strong handle is gone,
  frees block 0 while the second still observes it, and the destruction of the second
  reads the freed block.
\<close>

lemma weak_copy_is_not_counted:
  "run [S_raw (Some 5), W_observe 0, W_copy 0] init =
     Inr \<lparr>heap = \<lparr>counters = [Some \<lparr>shared_count = 1, weak_count = 1, variant = DirectPtrCounter (Obj 5)\<rparr>],
                  trace = [Allocate Direct_block 0]\<rparr>,
          shared = [Some \<lparr>ptr_counter = Some 0, ptr = Obj 5\<rparr>],
          weak = [Some \<lparr>weak_ptr_counter = Some 0\<rparr>, Some \<lparr>weak_ptr_counter = Some 0\<rparr>]\<rparr> \<and>
   run [S_raw (Some 5), W_observe 0, W_copy 0, S_destroy 0, W_destroy 0] init =
     Inr \<lparr>heap = \<lparr>counters = [None],
                  trace = [Allocate Direct_block 0, Destroy 0, Delete (Obj 5), Deallocate 0]\<rparr>,
          shared = [None],
          weak = [None, Some \<lparr>weak_ptr_counter = Some 0\<rparr>]\<rparr> \<and>
   run [S_raw (Some 5), W_observe 0, W_copy 0, S_destroy 0, W_destroy 0, W_destroy 1] init =
     Inl Use_after_free"
  by (simp add: exec_defs)

text \<open>
  C4.  \<open>lock()\<close> on an expired weak handle, whether it has no block or its block has a
  shared count of 0, gives the \<open>std::runtime_error\<close> of the first arm of the conditional,
  not an empty shared handle; on a handle that is not expired it gives the raw pointer to
  the control block.  It returns no \<open>SharedPtr\<close> and increments no count.
\<close>

theorem lock_of_expired_handle_is_runtime_error:
  "lock WeakPtr_default hp = Inr Runtime_error \<and>
   lock \<lparr>weak_ptr_counter = Some 0\<rparr>
        \<lparr>counters = [Some \<lparr>shared_count = 0, weak_count = 1, variant = DirectPtrCounter Null\<rparr>],
         trace = t\<rparr> = Inr Runtime_error \<and>
   lock \<lparr>weak_ptr_counter = Some 0\<rparr>
        \<lparr>counters = [Some \<lparr>shared_count = 1, weak_count = 1, variant = DirectPtrCounter (Obj 5)\<rparr>],
         trace = t\<rparr> = Inr (Counter_pointer (Some 0))"
  by (simp add: exec_defs)

text \<open>
  C5.  \<open>w1 = w2\<close> on two weak handles of one type, \<open>w1\<close> observing block 0 and \<open>w2\<close>
  observing block 1, each block with a weak count of 1.  After the assignment both handles
  observe block 1 and the heap is what it was: no release has run on block 0, whose weak
  count is still 1 with no handle left on it, and the weak count of block 1 is still 1,
  with two handles on it.
\<close>

theorem weak_copy_assignment_changes_no_count:
  "run [S_raw (Some 5), S_raw (Some 6), W_observe 0, W_observe 1] init =
     Inr \<lparr>heap = \<lparr>counters = [Some \<lparr>shared_count = 1, weak_count = 1, variant = DirectPtrCounter (Obj 5)\<rparr>,
                              Some \<lparr>shared_count = 1, weak_count = 1, variant = DirectPtrCounter (Obj 6)\<rparr>],
                  trace = [Allocate Direct_block 0, Allocate Direct_block 1]\<rparr>,
          shared = [Some \<lparr>ptr_counter = Some 0, ptr = Obj 5\<rparr>, Some \<lparr>ptr_counter = Some 1, ptr = Obj 6\<rparr>],
          weak = [Some \<lparr>weak_ptr_counter = Some 0\<rparr>, Some \<lparr>weak_ptr_counter = Some 1\<rparr>]\<rparr> \<and>
   run [S_raw (Some 5), S_raw (Some 6), W_observe 0, W_observe 1, W_assign 0 1] init =
     Inr \<lparr>heap = \<lparr>counters = [Some \<lparr>shared_count = 1, weak_count = 1, variant = DirectPtrCounter (Obj 5)\<rparr>,
                              Some \<lparr>shared_count = 1, weak_count = 1, variant = DirectPtrCounter (Obj 6)\<rparr>],
                  trace = [Allocate Direct_block 0, Allocate Direct_block 1]\<rparr>,
          shared = [Some \<lparr>ptr_counter = Some 0, ptr = Obj 5\<rparr>, Some \<lparr>ptr_counter = Some 1, ptr = Obj 6\<rparr>],
          weak = [Some \<lparr>weak_ptr_counter = Some 1\<rparr>, Some \<lparr>weak_ptr_counter = Some 1\<rparr>]\<rparr>"
  by (simp add: exec_defs)

text \<open>No copy assignment of a weak handle changes the heap or a strong handle.\<close>

lemma weak_copy_assignment_keeps_heap:
  "step (W_assign h h') s = Inr s' \<Longrightarrow> heap s' = heap s \<and> shared s' = shared s"
  by (auto simp: WeakPtr_copy_assign_def split: option.splits)

text \<open>
  C6.  \<open>MakeShared\<close> allocates two control blocks, a \<open>NonDirectPtrCounter\<close> holding the
  object and a \<open>DirectPtrCounter\<close> whose \<open>ptr_\<close> is the address of the first.  The handle
  it returns refers to the second block, with shared count 1; its \<open>get()\<close> is the address
  of the first block, not of the object inside it.
\<close>

theorem MakeShared_allocates_twice:
  "MakeShared v hp =
     Inr (\<lparr>ptr_counter = Some (Suc (length (counters hp))), ptr = Counter_obj (length (counters hp))\<rparr>,
          hp\<lparr>counters := counters hp @
                 [Some \<lparr>shared_count = 0, weak_count = 0, variant = NonDirectPtrCounter v\<rparr>,
                  Some \<lparr>shared_count = 1, weak_count = 0,
                        variant = DirectPtrCounter (Counter_obj (length (counters hp)))\<rparr>],
              trace := trace hp @
                 [Allocate NonDirect_block (length (counters hp)),
                  Allocate Direct_block (Suc (length (counters hp)))]\<rparr>) \<and>
   allocations (snd (projr (MakeShared v hp))) = allocations hp + 2 \<and>
   use_count (fst (projr (MakeShared v hp))) (snd (projr (MakeShared v hp))) = Inr 1 \<and>
   get (fst (projr (MakeShared v hp))) (snd (projr (MakeShared v hp))) =
     Inr (Counter_obj (length (counters hp)))"
  by (simp add: exec_defs nth_append)

text \<open>
  C7.  The construction of a weak handle from an empty shared handle calls
  \<open>increment_weak_count()\<close> through the null pointer.
\<close>

theorem weak_from_empty_shared_dereferences_null:
  "WeakPtr_from_shared SharedPtr_default hp = Inl Null_dereference \<and>
   run [S_default, W_observe 0] init = Inl Null_dereference"
  by (simp add: exec_defs)

text \<open>
  C8.  The handles never call a decrement on a count that is 0: on a block whose shared
  count is 0, \<open>~SharedPtr()\<close> changes nothing; on a block whose weak count is 0,
  \<open>~WeakPtr()\<close> leaves the count as it is (and frees the block if the shared count is 0
  too), and the move assignment of \<open>WeakPtr\<close> leaves the heap as it is.
\<close>

theorem handles_do_not_decrement_a_zero_count:
  assumes "counter_at hp a = Some c"
  shows "(shared_count c = 0 \<longrightarrow> SharedPtr_dtor \<lparr>ptr_counter = Some a, ptr = p\<rparr> hp = Inr hp) \<and>
         (weak_count c = 0 \<longrightarrow>
            WeakPtr_dtor \<lparr>weak_ptr_counter = Some a\<rparr> hp =
              Inr (if shared_count c = 0 then deallocate a hp else hp) \<and>
            WeakPtr_move_assign_body \<lparr>weak_ptr_counter = Some a\<rparr> other hp =
              Inr (\<lparr>weak_ptr_counter = weak_ptr_counter other\<rparr>, other\<lparr>weak_ptr_counter := None\<rparr>, hp))"
  using assms store_same[OF assms]
  by (simp add: SharedPtr_dtor_def WeakPtr_dtor_def WeakPtr_move_assign_body_def deref_def
      get_shared_count_def get_weak_count_def Let_def)

text \<open>
  A block for C8 with both counts 0: the destructor of a strong handle on it does
  nothing, the destructor of a weak handle frees it without touching the count.
\<close>

theorem handles_do_not_decrement_a_zero_count_witness:
  "counter_at \<lparr>counters = [Some \<lparr>shared_count = 0, weak_count = 0, variant = DirectPtrCounter Null :: unit variant\<rparr>], trace = []\<rparr> 0
     = Some \<lparr>shared_count = 0, weak_count = 0, variant = DirectPtrCounter Null\<rparr> \<and>
   SharedPtr_dtor \<lparr>ptr_counter = Some 0, ptr = Null\<rparr>
     \<lparr>counters = [Some \<lparr>shared_count = 0, weak_count = 0, variant = DirectPtrCounter Null :: unit variant\<rparr>], trace = []\<rparr>
     = Inr \<lparr>counters = [Some \<lparr>shared_count = 0, weak_count = 0, variant = DirectPtrCounter Null\<rparr>], trace = []\<rparr> \<and>
   WeakPtr_dtor \<lparr>weak_ptr_counter = Some 0\<rparr>
     \<lparr>counters = [Some \<lparr>shared_count = 0, weak_count = 0, variant = DirectPtrCounter Null :: unit variant\<rparr>], trace = []\<rparr>
     = Inr \<lparr>counters = [None], trace = [Deallocate 0]\<rparr>"
proof -
  let ?c = "\<lparr>shared_count = 0, weak_count = 0, variant = DirectPtrCounter Null :: unit variant\<rparr>"
  let ?hp = "\<lparr>counters = [Some ?c], trace = []\<rparr>"
  have a: "counter_at ?hp 0 = Some ?c" by (simp add: counter_at_def)
  from handles_do_not_decrement_a_zero_count[OF a, of Null] a show ?thesis
    by (simp add: deallocate_def)
qed

text \<open>
  C8 as stated fails: \<open>decrement_shared_count()\<close> and \<open>decrement_weak_count()\<close> have no
  guard, and on a count of 0 they wrap to \<open>2 ^ 32 - 1\<close>.
\<close>

theorem decrement_at_zero_wraps_counterexample:
  "shared_count (decrement_shared_count
      \<lparr>shared_count = 0, weak_count = 0, variant = DirectPtrCounter Null :: unit variant\<rparr>) = 4294967295 \<and>
   weak_count (decrement_weak_count
      \<lparr>shared_count = 0, weak_count = 0, variant = DirectPtrCounter Null :: unit variant\<rparr>) = 4294967295"
  by (simp add: decrement_shared_count_def decrement_weak_count_def)

text \<open>
  C9.  The copy assignment of a shared handle to itself leaves the whole state as it is.
  So does the copy assignment of a weak handle \<open>w\<close> in scope to itself (for an index
  \<open>w\<close> that names no weak handle there is no such statement).  No handle and no count
  changes, so \<open>use_count()\<close>, \<open>get()\<close>, the block referred to and \<open>expired()\<close> are what
  they were.
\<close>

theorem self_assignment_is_no_op:
  "step (S_assign h h) s = Inr s \<and>
   step (W_assign w w) s = (if weak_at s w = None then Inl No_such_handle else Inr s)"
proof -
  have "(weak s)[w := Some x] = weak s" if "weak_at s w = Some x" for x
    using that by (auto simp: weak_at_def list_update_same_conv split: if_splits)
  then show ?thesis
    by (cases "weak_at s w")
      (simp_all add: SharedPtr_copy_assign_def WeakPtr_copy_assign_def WeakPtr_implicit_copy_assign_def)
qed

text \<open>
  A state for C9: a strong handle and a weak handle on block 0; both self-assignments
  return it.
\<close>

theorem self_assignment_witness:
  "step (S_assign 0 0)
     \<lparr>heap = \<lparr>counters = [Some \<lparr>shared_count = 1, weak_count = 1, variant = DirectPtrCounter (Obj 5) :: unit variant\<rparr>],
              trace = [Allocate Direct_block 0]\<rparr>,
      shared = [Some \<lparr>ptr_counter = Some 0, ptr = Obj 5\<rparr>],
      weak = [Some \<lparr>weak_ptr_counter = Some 0\<rparr>]\<rparr> =
   Inr \<lparr>heap = \<lparr>counters = [Some \<lparr>shared_count = 1, weak_count = 1, variant = DirectPtrCounter (Obj 5)\<rparr>],
              trace = [Allocate Direct_block 0]\<rparr>,
      shared = [Some \<lparr>ptr_counter = Some 0, ptr = Obj 5\<rparr>],
      weak = [Some \<lparr>weak_ptr_counter = Some 0\<rparr>]\<rparr> \<and>
   step (W_assign 0 0)
     \<lparr>heap = \<lparr>counters = [Some \<lparr>shared_count = 1, weak_count = 1, variant = DirectPtrCounter (Obj 5) :: unit variant\<rparr>],
              trace = [Allocate Direct_block 0]\<rparr>,
      shared = [Some \<lparr>ptr_counter = Some 0, ptr = Obj 5\<rparr>],
      weak = [Some \<lparr>weak_ptr_counter = Some 0\<rparr>]\<rparr> =
   Inr \<lparr>heap = \<lparr>counters = [Some \<lparr>shared_count = 1, weak_count = 1, variant = DirectPtrCounter (Obj 5)\<rparr>],
              trace = [Allocate Direct_block 0]\<rparr>,
      shared = [Some \<lparr>ptr_counter = Some 0, ptr = Obj 5\<rparr>],
      weak = [Some \<lparr>weak_ptr_counter = Some 0\<rparr>]\<rparr>"
  using self_assignment_is_no_op[of 0
     "\<lparr>heap = \<lparr>counters = [Some \<lparr>shared_count = 1, weak_count = 1, variant = DirectPtrCounter (Obj 5) :: unit variant\<rparr>],
              trace = [Allocate Direct_block 0]\<rparr>,
      shared = [Some \<lparr>ptr_counter = Some 0, ptr = Obj 5\<rparr>],
      weak = [Some \<lparr>weak_ptr_counter = Some 0\<rparr>]\<rparr>" 0]
  by (simp add: weak_at_def)

text \<open>
  C10.  The copy construction from a handle without a control block is well defined and
  changes no block.  The new handle has no control block, its \<open>use_count()\<close> is 0, and
  its \<open>get()\<close> is the object pointer that the source caches: the null pointer if the
  source caches none, and not the null pointer otherwise.
\<close>

theorem copy_of_handle_without_block:
  assumes "ptr_counter so = None"
  shows "SharedPtr_copy so hp = Inr (\<lparr>ptr_counter = None, ptr = ptr so\<rparr>, hp) \<and>
         use_count \<lparr>ptr_counter = None, ptr = ptr so\<rparr> hp = Inr 0 \<and>
         get \<lparr>ptr_counter = None, ptr = ptr so\<rparr> hp = Inr (ptr so) \<and>
         get so hp = Inr (ptr so)"
  using assms by (simp add: SharedPtr_copy_def get_def use_count_def)

text \<open>
  For C10: the copy of a default-constructed handle, on a heap with one block, has no
  block, a \<open>use_count()\<close> of 0 and a null \<open>get()\<close>.
\<close>

theorem copy_of_handle_without_block_witness:
  "ptr_counter SharedPtr_default = None \<and>
   SharedPtr_copy SharedPtr_default
     \<lparr>counters = [Some \<lparr>shared_count = 1, weak_count = 0, variant = DirectPtrCounter (Obj 5) :: unit variant\<rparr>],
      trace = [Allocate Direct_block 0]\<rparr> =
     Inr (\<lparr>ptr_counter = None, ptr = Null\<rparr>,
          \<lparr>counters = [Some \<lparr>shared_count = 1, weak_count = 0, variant = DirectPtrCounter (Obj 5)\<rparr>],
           trace = [Allocate Direct_block 0]\<rparr>) \<and>
   use_count \<lparr>ptr_counter = None, ptr = Null\<rparr>
     \<lparr>counters = [Some \<lparr>shared_count = 1, weak_count = 0, variant = DirectPtrCounter (Obj 5) :: unit variant\<rparr>],
      trace = [Allocate Direct_block 0]\<rparr> = Inr 0 \<and>
   get \<lparr>ptr_counter = None, ptr = Null\<rparr>
     \<lparr>counters = [Some \<lparr>shared_count = 1, weak_count = 0, variant = DirectPtrCounter (Obj 5) :: unit variant\<rparr>],
      trace = [Allocate Direct_block 0]\<rparr> = Inr Null"
proof -
  have a: "ptr_counter SharedPtr_default = None" by (simp add: SharedPtr_default_def)
  from copy_of_handle_without_block[OF a,
      of "\<lparr>counters = [Some \<lparr>shared_count = 1, weak_count = 0, variant = DirectPtrCounter (Obj 5) :: unit variant\<rparr>],
           trace = [Allocate Direct_block 0]\<rparr>"] a
  show ?thesis by (simp add: SharedPtr_default_def)
qed

text \<open>
  C10 as stated fails for a handle without a control block that caches an object pointer:
  after \<open>SharedPtr<T> s(new T); s.reset_ptr_counter();\<close> the handle \<open>s\<close> has no control
  block, and the \<open>get()\<close> of its copy is the object pointer, not the null pointer.
\<close>

theorem copy_of_handle_with_cached_pointer_counterexample:
  "SharedPtr_from_raw (Obj 5) \<lparr>counters = [], trace = []\<rparr> =
     Inr (\<lparr>ptr_counter = Some 0, ptr = Obj 5\<rparr>,
          \<lparr>counters = [Some \<lparr>shared_count = 1, weak_count = 0, variant = DirectPtrCounter (Obj 5) :: unit variant\<rparr>],
           trace = [Allocate Direct_block 0]\<rparr>) \<and>
   reset_ptr_counter \<lparr>ptr_counter = Some 0, ptr = Obj 5\<rparr> = \<lparr>ptr_counter = None, ptr = Obj 5\<rparr> \<and>
   SharedPtr_copy (reset_ptr_counter \<lparr>ptr_counter = Some 0, ptr = Obj 5\<rparr>)
     \<lparr>counters = [Some \<lparr>shared_count = 1, weak_count = 0, variant = DirectPtrCounter (Obj 5) :: unit variant\<rparr>],
      trace = [Allocate Direct_block 0]\<rparr> =
     Inr (\<lparr>ptr_counter = None, ptr = Obj 5\<rparr>,
          \<lparr>counters = [Some \<lparr>shared_count = 1, weak_count = 0, variant = DirectPtrCounter (Obj 5)\<rparr>],
           trace = [Allocate Direct_block 0]\<rparr>) \<and>
   get \<lparr>ptr_counter = None, ptr = Obj 5\<rparr>
     \<lparr>counters = [Some \<lparr>shared_count = 1, weak_count = 0, variant = DirectPtrCounter (Obj 5) :: unit variant\<rparr>],
      trace = [Allocate Direct_block 0]\<rparr> = Inr (Obj 5)"
  by (simp add: exec_defs reset_ptr_counter_def)

text \<open>
  In a state that a program of the statements of \<open>op\<close> reaches, a handle without a
  control block caches no object pointer, and its copy is an empty handle.
\<close>

lemma copy_of_empty_handle_in_program:
  assumes "run ops init = Inr s" and "shared_at s h = Some so" and "ptr_counter so = None"
  shows "step (S_copy h) s = Inr (s\<lparr>shared := shared s @ [Some SharedPtr_default]\<rparr>) \<and>
         get SharedPtr_default (heap s) = Inr Null \<and>
         use_count SharedPtr_default (heap s) = Inr 0"
proof -
  from run_empty_is_null[OF empty_is_null_init assms(1)] have "empty_is_null s" .
  from handle_ok_at[OF this assms(2,3)] have "ptr so = Null" .
  with assms(2,3) show ?thesis
    by (simp add: SharedPtr_copy_def get_def use_count_def SharedPtr_default_def)
qed

end
